theory Spec2Isabelle
  imports Complex_Main
begin

section \<open>Chunked reconciliation: the window partition\<close>

text \<open>
  \<^verbatim>\<open>process_html_file_in_chunks\<close> computes
  \<^verbatim>\<open>num_chunks = (total_rows + chunk_size - 1) // chunk_size\<close> and, for every
  \<^verbatim>\<open>chunk_num in range(num_chunks)\<close>, the window
  \<^verbatim>\<open>row_start = chunk_num * chunk_size + 1\<close>,
  \<^verbatim>\<open>row_end = min((chunk_num + 1) * chunk_size, total_rows)\<close>.
  Python integers are unbounded, so they are \<^typ>\<open>int\<close>; \<^verbatim>\<open>//\<close> is floor
  division, as \<open>div\<close> on \<^typ>\<open>int\<close> is.
\<close>

definition py_range :: "int \<Rightarrow> int list" where
  "py_range n = [0..n - 1]"

definition num_chunks :: "int \<Rightarrow> int \<Rightarrow> int" where
  "num_chunks total_rows chunk_size = (total_rows + chunk_size - 1) div chunk_size"

definition chunk_window :: "int \<Rightarrow> int \<Rightarrow> int \<Rightarrow> int \<times> int" where
  "chunk_window total_rows chunk_size chunk_num =
     (chunk_num * chunk_size + 1, min ((chunk_num + 1) * chunk_size) total_rows)"

definition chunk_windows :: "int \<Rightarrow> int \<Rightarrow> (int \<times> int) list" where
  "chunk_windows total_rows chunk_size =
     map (chunk_window total_rows chunk_size) (py_range (num_chunks total_rows chunk_size))"

text \<open>The rows a window \<open>(row_start, row_end)\<close> asks for, in order.\<close>

definition window_rows :: "int \<times> int \<Rightarrow> int list" where
  "window_rows w = [fst w..snd w]"

subsection \<open>The partition covers the rows exactly once\<close>

lemma upto_append_next: "i \<le> j + 1 \<Longrightarrow> j \<le> k \<Longrightarrow> [i..j] @ [j + 1..k] = [i..k]" for i j k :: int
proof (cases "i \<le> j")
  case True
  assume "j \<le> k"
  with True show ?thesis by (simp add: upto_split2 [of i j k])
next
  case False
  assume "i \<le> j + 1"
  with False have "i = j + 1" by simp
  then show ?thesis by simp
qed

lemma num_chunks_bounds:
  assumes "1 \<le> c"
  shows "num_chunks n c * c \<le> n + c - 1" and "n \<le> num_chunks n c * c"
proof -
  define q where "q = (n + c - 1) div c"
  define r where "r = (n + c - 1) mod c"
  have c0: "0 < c" using assms by simp
  have eq: "n + c - 1 = q * c + r" by (simp add: q_def r_def)
  have m: "0 \<le> r" "r < c" using c0 by (simp_all add: r_def)
  have nc: "num_chunks n c = q" by (simp add: num_chunks_def q_def)
  show "num_chunks n c * c \<le> n + c - 1"
    unfolding nc using eq m by linarith
  show "n \<le> num_chunks n c * c"
    unfolding nc using eq m by linarith
qed

lemma num_chunks_ceiling:
  assumes "1 \<le> c"
  shows "num_chunks n c = \<lceil>real_of_int n / real_of_int c\<rceil>"
proof -
  define q where "q = num_chunks n c"
  have c0: "0 < c" using assms by simp
  have a: "n \<le> q * c" and b: "(q - 1) * c < n"
    using num_chunks_bounds [OF assms, of n] by (simp_all add: q_def algebra_simps)
  have "real_of_int n \<le> real_of_int q * real_of_int c" using a
    by (metis of_int_le_iff of_int_mult)
  then have a': "real_of_int n / real_of_int c \<le> real_of_int q" using c0
    by (simp add: pos_divide_le_eq)
  have "real_of_int (q - 1) * real_of_int c < real_of_int n" using b
    by (metis of_int_less_iff of_int_mult)
  then have b': "real_of_int q - 1 < real_of_int n / real_of_int c" using c0
    by (simp add: pos_less_divide_eq)
  have "\<lceil>real_of_int n / real_of_int c\<rceil> = q"
    by (rule ceiling_unique) (use a' b' in simp_all)
  then show ?thesis by (simp add: q_def)
qed

lemma num_chunks_lower:
  assumes "1 \<le> c" and "k + 1 \<le> num_chunks n c"
  shows "k * c + 1 \<le> n"
proof -
  have "(k + 1) * c \<le> num_chunks n c * c"
    using assms by (intro mult_right_mono) simp_all
  also have "\<dots> \<le> n + c - 1" by (rule num_chunks_bounds [OF assms(1)])
  finally show ?thesis by (simp add: algebra_simps)
qed

lemma concat_windows_prefix:
  assumes "1 \<le> c"
  shows "int k \<le> num_chunks n c \<Longrightarrow>
    concat (map window_rows (map (chunk_window n c) [0..int k - 1])) = [1..min (int k * c) n]"
proof (induction k)
  case 0
  show ?case by simp
next
  case (Suc k)
  have lo: "int k * c + 1 \<le> n"
    using num_chunks_lower [OF assms, of "int k" n] Suc.prems by simp
  have c0: "0 \<le> int k * c" using assms by simp
  have split: "[0..int (Suc k) - 1] = [0..int k - 1] @ [int k]"
    using upto_rec2 [of 0 "int k"] by simp
  have ih: "concat (map window_rows (map (chunk_window n c) [0..int k - 1])) = [1..int k * c]"
    using Suc.IH Suc.prems lo by (simp add: min_def)
  have le: "int k * c \<le> min ((int k + 1) * c) n"
    using lo assms by (simp add: algebra_simps)
  have "concat (map window_rows (map (chunk_window n c) [0..int (Suc k) - 1]))
      = [1..int k * c] @ [int k * c + 1..min ((int k + 1) * c) n]"
    unfolding split map_append concat_append ih
    by (simp add: window_rows_def chunk_window_def)
  also have "\<dots> = [1..min ((int k + 1) * c) n]"
    using c0 le by (intro upto_append_next) simp_all
  finally show ?case by (simp add: add.commute)
qed

lemma chunk_windows_cover:
  assumes "1 \<le> c" and "1 \<le> n"
  shows "concat (map window_rows (chunk_windows n c)) = [1..n]"
proof -
  have pos: "0 \<le> num_chunks n c"
    using assms by (simp add: num_chunks_def pos_imp_zdiv_nonneg_iff)
  then obtain k where k: "num_chunks n c = int k" by (metis nonneg_int_cases)
  have "concat (map window_rows (chunk_windows n c)) = [1..min (int k * c) n]"
    using concat_windows_prefix [OF assms(1), of k n] k
    by (simp add: chunk_windows_def py_range_def)
  moreover have "n \<le> int k * c"
    using num_chunks_bounds(2) [OF assms(1), of n] k by simp
  ultimately show ?thesis by simp
qed

lemma chunk_windows_length:
  "length (chunk_windows n c) = nat (num_chunks n c)"
  by (simp add: chunk_windows_def py_range_def)

lemma chunk_window_size:
  assumes "1 \<le> c" and "w \<in> set (chunk_windows n c)"
  shows "fst w \<le> snd w \<and> snd w - fst w + 1 \<le> c"
proof -
  from assms(2) obtain k where k: "0 \<le> k" "k \<le> num_chunks n c - 1" and w: "w = chunk_window n c k"
    by (auto simp: chunk_windows_def py_range_def)
  have "k * c + 1 \<le> n" using num_chunks_lower [OF assms(1), of k n] k by simp
  then show ?thesis using assms(1) by (simp add: w chunk_window_def algebra_simps min_def)
qed

lemma chunk_windows_nth:
  assumes "i < length (chunk_windows n c)"
  shows "chunk_windows n c ! i = chunk_window n c (int i)"
proof -
  have "int i \<le> num_chunks n c - 1"
    using assms by (simp add: chunk_windows_def py_range_def)
  then have "[0..num_chunks n c - 1] ! i = 0 + int i"
    by (intro nth_upto) simp
  then show ?thesis
    using assms by (simp add: chunk_windows_def py_range_def)
qed

lemma chunk_windows_consecutive:
  assumes "1 \<le> c" and "Suc i < length (chunk_windows n c)"
  shows "fst (chunk_windows n c ! Suc i) = snd (chunk_windows n c ! i) + 1"
proof -
  have "int i + 1 + 1 \<le> num_chunks n c"
    using assms(2) by (simp add: chunk_windows_def py_range_def)
  then have "(int i + 1) * c + 1 \<le> n"
    by (rule num_chunks_lower [OF assms(1)])
  moreover have "chunk_windows n c ! Suc i = chunk_window n c (int i + 1)"
    using chunk_windows_nth [OF assms(2)] by (simp add: add.commute)
  moreover have "chunk_windows n c ! i = chunk_window n c (int i)"
    using chunk_windows_nth [of i n c] assms(2) by simp
  ultimately show ?thesis by (simp add: chunk_window_def min_def)
qed

lemma chunk_windows_example: "chunk_windows 65 30 = [(1, 30), (31, 60), (61, 65)]"
  by (simp add: chunk_windows_def py_range_def num_chunks_def chunk_window_def upto.simps)

text \<open>
  Claim C5. For every total row count \<open>N \<ge> 1\<close> and every chunk size \<open>c \<ge> 1\<close> the
  window list has exactly \<open>\<lceil>N / c\<rceil>\<close> windows; the rows of the windows, read one
  window after the other, are exactly the rows \<open>1, 2, \<dots>, N\<close> (each row once, in
  increasing order, so the windows are consecutive and do not overlap); every window
  is non-empty and has at most \<open>c\<close> rows; each window starts one row after the previous
  one ends; and \<open>N = 65\<close>, \<open>c = 30\<close> gives the windows 1-30, 31-60, 61-65.
\<close>

theorem chunk_partition:
  assumes "1 \<le> N" and "1 \<le> c"
  shows "length (chunk_windows N c) = nat \<lceil>real_of_int N / real_of_int c\<rceil>
       \<and> concat (map window_rows (chunk_windows N c)) = [1..N]
       \<and> (\<forall>w \<in> set (chunk_windows N c). fst w \<le> snd w \<and> snd w - fst w + 1 \<le> c)
       \<and> (\<forall>i. Suc i < length (chunk_windows N c) \<longrightarrow>
             fst (chunk_windows N c ! Suc i) = snd (chunk_windows N c ! i) + 1)
       \<and> chunk_windows 65 30 = [(1, 30), (31, 60), (61, 65)]"
proof (intro conjI ballI allI impI)
  show "length (chunk_windows N c) = nat \<lceil>real_of_int N / real_of_int c\<rceil>"
    using num_chunks_ceiling [OF assms(2), of N] by (simp add: chunk_windows_length)
  show "concat (map window_rows (chunk_windows N c)) = [1..N]"
    by (rule chunk_windows_cover [OF assms(2) assms(1)])
  show "chunk_windows 65 30 = [(1, 30), (31, 60), (61, 65)]"
    by (rule chunk_windows_example)
next
  fix w assume "w \<in> set (chunk_windows N c)"
  then show "fst w \<le> snd w" and "snd w - fst w + 1 \<le> c"
    using chunk_window_size [OF assms(2), of w N] by simp_all
next
  fix i assume "Suc i < length (chunk_windows N c)"
  then show "fst (chunk_windows N c ! Suc i) = snd (chunk_windows N c ! i) + 1"
    by (rule chunk_windows_consecutive [OF assms(2)])
qed

theorem chunk_partition_witness:
  "(1::int) \<le> 65 \<and> (1::int) \<le> 30
   \<and> length (chunk_windows 65 30) = 3
   \<and> concat (map window_rows (chunk_windows 65 30)) = [1..65]
   \<and> list_all (\<lambda>w. fst w \<le> snd w \<and> snd w - fst w + 1 \<le> 30) (chunk_windows 65 30)"
proof -
  have p: "(1::int) \<le> 65" "(1::int) \<le> 30" by simp_all
  have c: "\<lceil>real_of_int 65 / real_of_int 30\<rceil> = (3::int)"
    by (rule ceiling_unique) simp_all
  from chunk_partition [OF p]
  have "length (chunk_windows 65 30) = nat \<lceil>real_of_int 65 / real_of_int 30\<rceil>"
    and "concat (map window_rows (chunk_windows 65 30)) = [1..65]"
    and "\<forall>w \<in> set (chunk_windows 65 30). fst w \<le> snd w \<and> snd w - fst w + 1 \<le> 30"
    by blast+
  then show ?thesis using p c by (simp add: list_all_iff)
qed

section \<open>Python values used by the pipeline\<close>

text \<open>
  Strings are lists of characters; a character is a code point below 256. Exceptions
  are values: \<open>Inl\<close> of the exception raised.
\<close>

datatype py_error = ValueError | ZeroDivisionError

definition is_decimal :: "char \<Rightarrow> bool" where
  "is_decimal c = (48 \<le> (of_char c :: nat) \<and> (of_char c :: nat) \<le> 57)"

definition digit_value :: "char \<Rightarrow> int" where
  "digit_value c = int (of_char c) - 48"

definition digit_char :: "nat \<Rightarrow> char" where
  "digit_char d = char_of (48 + d)"

text \<open>The value of a string of decimal digits, most significant digit first.\<close>

definition decimal_value :: "string \<Rightarrow> int" where
  "decimal_value s = foldl (\<lambda>a c. 10 * a + digit_value c) 0 s"

text \<open>
  \<^verbatim>\<open>int(s)\<close>, for the strings the pipeline passes to it: a match of \<^verbatim>\<open>\d+\<close> or a
  string on which \<^verbatim>\<open>isdigit()\<close> holds. Such a string has no sign, blank or
  underscore, so \<^verbatim>\<open>int\<close> returns its decimal value when every character is a
  decimal digit and raises \<^verbatim>\<open>ValueError\<close> otherwise. The interpreter's limit on
  the number of digits of such a string (4300 by default in recent versions) is not
  modelled.
\<close>

definition py_int :: "string \<Rightarrow> py_error + int" where
  "py_int s = (if s \<noteq> [] \<and> list_all is_decimal s then Inr (decimal_value s) else Inl ValueError)"

text \<open>\<^verbatim>\<open>str(n)\<close> of an integer.\<close>

fun str_nat :: "nat \<Rightarrow> string" where
  "str_nat n = (if n < 10 then [digit_char n] else str_nat (n div 10) @ [digit_char (n mod 10)])"

declare str_nat.simps [simp del]

definition py_str :: "int \<Rightarrow> string" where
  "py_str i = (if i < 0 then CHR ''-'' # str_nat (nat (- i)) else str_nat (nat i))"

section \<open>Row counting\<close>

text \<open>
  \<^verbatim>\<open>re.findall(r'id="row(\d+)"', html_content)\<close>: scanning from the left, a match
  at a position is the text \<^verbatim>\<open>id="row\<close>, the longest non-empty run of decimal
  digits, and a closing double quote (a shorter run of digits cannot be followed by the
  quote, so backtracking finds nothing else); the digits are the captured group, and
  the scan goes on after the match. Where there is no match the scan moves one
  character on.
\<close>

definition row_marker_prefix :: string where
  "row_marker_prefix = ''id='' @ [CHR 0x22] @ ''row''"

definition match_row_at :: "string \<Rightarrow> (string \<times> string) option" where
  "match_row_at s =
     (if take (length row_marker_prefix) s = row_marker_prefix then
        (let t = drop (length row_marker_prefix) s;
             ds = takeWhile is_decimal t;
             r = dropWhile is_decimal t
         in if ds \<noteq> [] \<and> take 1 r = [CHR 0x22] then Some (ds, drop 1 r) else None)
      else None)"

lemma match_row_at_shorter:
  assumes "match_row_at s = Some (ds, rest)"
  shows "length rest < length s"
proof -
  let ?t = "drop (length row_marker_prefix) s"
  from assms have p: "take (length row_marker_prefix) s = row_marker_prefix"
    and r: "rest = drop 1 (dropWhile is_decimal ?t)"
    by (auto simp: match_row_at_def Let_def split: if_splits)
  have "length (dropWhile is_decimal ?t) \<le> length ?t"
    by (rule length_dropWhile_le)
  moreover have "length s \<ge> length row_marker_prefix"
    using p by (metis length_take min.cobounded1)
  moreover have "length row_marker_prefix = 7" by (simp add: row_marker_prefix_def)
  moreover have "length rest \<le> length (dropWhile is_decimal ?t)" by (simp add: r)
  moreover have "length ?t = length s - length row_marker_prefix" by simp
  ultimately show ?thesis by linarith
qed

function re_findall_rows :: "string \<Rightarrow> string list" where
  "re_findall_rows s =
     (if s = [] then []
      else case match_row_at s of
             Some (ds, rest) \<Rightarrow> ds # re_findall_rows rest
           | None \<Rightarrow> re_findall_rows (tl s))"
  by pat_completeness auto
termination
  by (relation "measure length") (auto simp: match_row_at_shorter)

declare re_findall_rows.simps [simp del]

text \<open>\<^verbatim>\<open>[int(row_id) for row_id in row_matches]\<close>; the first exception ends it.\<close>

fun int_each :: "string list \<Rightarrow> py_error + int list" where
  "int_each [] = Inr []"
| "int_each (s # ss) =
     (case py_int s of
        Inl e \<Rightarrow> Inl e
      | Inr n \<Rightarrow> (case int_each ss of Inl e \<Rightarrow> Inl e | Inr ns \<Rightarrow> Inr (n # ns)))"

text \<open>\<^verbatim>\<open>max(xs)\<close>, which raises \<^verbatim>\<open>ValueError\<close> on an empty list.\<close>

fun py_max :: "int list \<Rightarrow> py_error + int" where
  "py_max [] = Inl ValueError"
| "py_max (x # xs) = Inr (fold max xs x)"

text \<open>
  \<^verbatim>\<open>count_html_rows\<close>. The argument is the text of the file as the first encoding
  that decodes it gives it, \<open>None\<close> when no encoding of the list does, in which case
  the function raises \<^verbatim>\<open>ValueError\<close>.
\<close>

definition count_html_rows :: "string option \<Rightarrow> py_error + int" where
  "count_html_rows html_content =
     (case html_content of
        None \<Rightarrow> Inl ValueError
      | Some content \<Rightarrow>
          (let row_matches = re_findall_rows content
           in if row_matches = [] then Inr 0
              else (case int_each row_matches of
                      Inl e \<Rightarrow> Inl e
                    | Inr row_numbers \<Rightarrow> py_max row_numbers)))"


section \<open>The chunked reconciliation run\<close>

text \<open>
  The outcome of one call of \<^verbatim>\<open>analyze_html_table_with_openai\<close> for a window:
  it raises (a file cannot be read: that happens before its own \<^verbatim>\<open>try\<close>), it
  returns \<^verbatim>\<open>False\<close> (the call failed or the response had no JSON array that
  parses), or it returns \<^verbatim>\<open>True\<close> after writing the parsed array as the chunk's
  JSON file, which the caller then loads.
\<close>

datatype 'p chunk_outcome = Raised | ChunkFailed | ChunkParsed "'p list"

record 'p run_result =
  success :: bool
  patch_set :: "'p list option"
  dispatched :: "(int \<times> int) list"

text \<open>
  The loop over the windows: \<open>acc\<close> is \<^verbatim>\<open>all_cell_mappings\<close>, \<open>sent\<close> the windows
  dispatched so far. An exception leaves the loop (\<open>None\<close>).
\<close>

fun run_chunks ::
  "(int \<Rightarrow> int \<Rightarrow> 'p chunk_outcome) \<Rightarrow> (int \<times> int) list \<Rightarrow> 'p list \<Rightarrow> (int \<times> int) list
     \<Rightarrow> 'p list option \<times> (int \<times> int) list" where
  "run_chunks analyze [] acc sent = (Some acc, sent)"
| "run_chunks analyze ((row_start, row_end) # ws) acc sent =
     (case analyze row_start row_end of
        Raised \<Rightarrow> (None, sent @ [(row_start, row_end)])
      | ChunkFailed \<Rightarrow> run_chunks analyze ws acc (sent @ [(row_start, row_end)])
      | ChunkParsed chunk_mappings \<Rightarrow>
          run_chunks analyze ws (acc @ chunk_mappings) (sent @ [(row_start, row_end)]))"

text \<open>
  \<^verbatim>\<open>process_html_file_in_chunks\<close>: the returned flag, the combined patch set it
  persists (\<open>None\<close>: nothing is written) and the windows it dispatched. Every
  exception inside is caught and gives \<^verbatim>\<open>False\<close>; \<^verbatim>\<open>chunk_size = 0\<close> raises
  \<^verbatim>\<open>ZeroDivisionError\<close> in the ceiling division.
\<close>

definition process_html_file_in_chunks ::
  "string option \<Rightarrow> (int \<Rightarrow> int \<Rightarrow> 'p chunk_outcome) \<Rightarrow> int \<Rightarrow> 'p run_result" where
  "process_html_file_in_chunks html_content analyze chunk_size =
     (case count_html_rows html_content of
        Inl e \<Rightarrow> \<lparr>success = False, patch_set = None, dispatched = []\<rparr>
      | Inr total_rows \<Rightarrow>
          if total_rows = 0 then \<lparr>success = False, patch_set = None, dispatched = []\<rparr>
          else if chunk_size = 0 then \<lparr>success = False, patch_set = None, dispatched = []\<rparr>
          else (case run_chunks analyze (chunk_windows total_rows chunk_size) [] [] of
                  (None, sent) \<Rightarrow> \<lparr>success = False, patch_set = None, dispatched = sent\<rparr>
                | (Some all_cell_mappings, sent) \<Rightarrow>
                    if all_cell_mappings \<noteq> []
                    then \<lparr>success = True, patch_set = Some all_cell_mappings, dispatched = sent\<rparr>
                    else \<lparr>success = False, patch_set = None, dispatched = sent\<rparr>))"

text \<open>A reasoning service that answers every window with the same parsed array.\<close>

definition answer_with :: "'p list \<Rightarrow> int \<Rightarrow> int \<Rightarrow> 'p chunk_outcome" where
  "answer_with ps row_start row_end = ChunkParsed ps"

text \<open>The patches a window contributes.\<close>

fun chunk_patches :: "'p chunk_outcome \<Rightarrow> 'p list" where
  "chunk_patches (ChunkParsed ps) = ps"
| "chunk_patches _ = []"

subsection \<open>Decimal strings\<close>











subsection \<open>Row counting on a table with the markers row1..rowN\<close>



text \<open>A rendered table of three rows whose markers appear out of order in the text.\<close>

definition sample_table :: string where
  "sample_table =
     ''<tr><th id='' @ [CHR 0x22] @ ''row2'' @ [CHR 0x22] @ ''>2</th></tr>'' @
     ''<tr><th id='' @ [CHR 0x22] @ ''row3'' @ [CHR 0x22] @ ''>3</th></tr>'' @
     ''<tr><th id='' @ [CHR 0x22] @ ''row1'' @ [CHR 0x22] @ ''>1</th></tr>''"

lemma sample_table_matches: "re_findall_rows sample_table = [''2'', ''3'', ''1'']"
  by code_simp




subsection \<open>A table without row markers\<close>

text \<open>
  Claim C1, as the code has it. For every rendered table without a row marker the
  chunked reconciliation dispatches no window, persists no patch set and returns
  \<^verbatim>\<open>False\<close>: the guard \<^verbatim>\<open>if total_rows == 0\<close> reports the file as failed.
\<close>

theorem no_rows_reports_failure:
  assumes "re_findall_rows content = []"
  shows "process_html_file_in_chunks (Some content) analyze chunk_size
           = \<lparr>success = False, patch_set = None, dispatched = []\<rparr>"
  using assms by (simp add: process_html_file_in_chunks_def count_html_rows_def)

lemma empty_worksheet_no_markers: "re_findall_rows ''<p>Empty worksheet</p>'' = []"
  by code_simp

theorem no_rows_reports_failure_witness:
  "re_findall_rows ''<p>Empty worksheet</p>'' = []
   \<and> process_html_file_in_chunks (Some ''<p>Empty worksheet</p>'') (answer_with [''B2'']) 30
       = \<lparr>success = False, patch_set = None, dispatched = []\<rparr>"
  using no_rows_reports_failure [of "''<p>Empty worksheet</p>''" "answer_with [''B2'']" 30]
    empty_worksheet_no_markers by simp

text \<open>
  Claim C1 as stated (a table without row markers is a no-op success with an empty patch
  set) fails on the text the renderer emits for an empty worksheet: the run is not a
  success, and no patch set, not even an empty one, is persisted.
\<close>

theorem no_rows_not_success_counterexample:
  "re_findall_rows ''<p>Empty worksheet</p>'' = []
   \<and> \<not> success (process_html_file_in_chunks (Some ''<p>Empty worksheet</p>'')
                   (answer_with ([] :: string list)) 30)
   \<and> patch_set (process_html_file_in_chunks (Some ''<p>Empty worksheet</p>'')
                   (answer_with ([] :: string list)) 30) \<noteq> Some []"
  by (simp add: process_html_file_in_chunks_def count_html_rows_def empty_worksheet_no_markers)

subsection \<open>When a run reports success\<close>

lemma run_chunks_result:
  "fst (run_chunks analyze ws acc sent) =
     (if \<exists>w \<in> set ws. analyze (fst w) (snd w) = Raised then None
      else Some (acc @ concat (map (\<lambda>w. chunk_patches (analyze (fst w) (snd w))) ws)))"
proof (induction ws arbitrary: acc sent)
  case Nil
  show ?case by simp
next
  case (Cons w ws)
  obtain a b where w: "w = (a, b)" by (cases w)
  show ?case
  proof (cases "analyze a b")
    case Raised
    then show ?thesis by (simp add: w)
  next
    case ChunkFailed
    then show ?thesis using Cons.IH [of acc "sent @ [(a, b)]"] by (simp add: w)
  next
    case (ChunkParsed ps)
    then show ?thesis using Cons.IH [of "acc @ ps" "sent @ [(a, b)]"] by (simp add: w)
  qed
qed

lemma run_chunks_dispatched:
  "\<forall>w \<in> set ws. analyze (fst w) (snd w) \<noteq> Raised \<Longrightarrow>
     snd (run_chunks analyze ws acc sent) = sent @ ws"
proof (induction ws arbitrary: acc sent)
  case Nil
  show ?case by simp
next
  case (Cons w ws)
  obtain a b where w: "w = (a, b)" by (cases w)
  from Cons.prems have nr: "analyze a b \<noteq> Raised"
    and rest: "\<forall>w \<in> set ws. analyze (fst w) (snd w) \<noteq> Raised" by (simp_all add: w)
  show ?case
    using nr Cons.IH [OF rest] by (cases "analyze a b") (simp_all add: w)
qed

lemma num_chunks_no_rows: "1 \<le> c \<Longrightarrow> n \<le> 0 \<Longrightarrow> chunk_windows n c = []"
proof -
  assume c: "1 \<le> c" and n: "n \<le> 0"
  have "num_chunks n c * c \<le> n + c - 1" by (rule num_chunks_bounds [OF c])
  then have "num_chunks n c * c < 1 * c" using n by simp
  then have "num_chunks n c < 1" using c by (simp only: mult_less_cancel_right)
  then show ?thesis by (simp add: chunk_windows_def py_range_def)
qed

text \<open>
  Claim C2, as the code has it. For a run over a table of \<open>total_rows\<close> rows with a
  chunk size of at least 1, the run reports success if and only if no window's call
  raises and at least one window's response was parsed into a non-empty list of patches,
  that is, the accumulated patch set is non-empty. In particular a run with no
  successfully parsed window is reported failed.
\<close>

theorem success_iff_patch_found:
  assumes "count_html_rows html_content = Inr total_rows" and "1 \<le> chunk_size"
  shows "(success (process_html_file_in_chunks html_content analyze chunk_size) \<longleftrightarrow>
            (\<forall>w \<in> set (chunk_windows total_rows chunk_size). analyze (fst w) (snd w) \<noteq> Raised)
          \<and> (\<exists>w \<in> set (chunk_windows total_rows chunk_size).
                 chunk_patches (analyze (fst w) (snd w)) \<noteq> []))
       \<and> ((\<forall>w \<in> set (chunk_windows total_rows chunk_size).
               \<forall>ps. analyze (fst w) (snd w) \<noteq> ChunkParsed ps)
            \<longrightarrow> \<not> success (process_html_file_in_chunks html_content analyze chunk_size))"
proof -
  let ?ws = "chunk_windows total_rows chunk_size"
  let ?r = "process_html_file_in_chunks html_content analyze chunk_size"
  have main: "success ?r \<longleftrightarrow>
      (\<forall>w \<in> set ?ws. analyze (fst w) (snd w) \<noteq> Raised)
      \<and> (\<exists>w \<in> set ?ws. chunk_patches (analyze (fst w) (snd w)) \<noteq> [])"
  proof (cases "total_rows = 0")
    case True
    then have "?ws = []" using assms(2) by (simp add: num_chunks_no_rows)
    then show ?thesis using True assms(1) by (simp add: process_html_file_in_chunks_def)
  next
    case False
    obtain res sent where rc: "run_chunks analyze ?ws [] [] = (res, sent)"
      by (cases "run_chunks analyze ?ws [] []")
    have res: "res = (if \<exists>w \<in> set ?ws. analyze (fst w) (snd w) = Raised then None
        else Some (concat (map (\<lambda>w. chunk_patches (analyze (fst w) (snd w))) ?ws)))"
      using run_chunks_result [of analyze ?ws "[]" "[]"] rc by simp
    show ?thesis
    proof (cases "\<exists>w \<in> set ?ws. analyze (fst w) (snd w) = Raised")
      case True
      then have "res = None" using res by simp
      then have "\<not> success ?r"
        using False assms rc by (simp add: process_html_file_in_chunks_def)
      then show ?thesis using True by blast
    next
      case nr: False
      then have "res = Some (concat (map (\<lambda>w. chunk_patches (analyze (fst w) (snd w))) ?ws))"
        using res by simp
      then have "success ?r \<longleftrightarrow>
          concat (map (\<lambda>w. chunk_patches (analyze (fst w) (snd w))) ?ws) \<noteq> []"
        using False assms rc by (simp add: process_html_file_in_chunks_def)
      also have "\<dots> \<longleftrightarrow> (\<exists>w \<in> set ?ws. chunk_patches (analyze (fst w) (snd w)) \<noteq> [])"
        by auto
      finally show ?thesis using nr by blast
    qed
  qed
  have "\<not> success ?r"
    if "\<forall>w \<in> set ?ws. \<forall>ps. analyze (fst w) (snd w) \<noteq> ChunkParsed ps"
  proof -
    have "chunk_patches (analyze (fst w) (snd w)) = []" if "w \<in> set ?ws" for w
      using that \<open>\<forall>w \<in> set ?ws. \<forall>ps. analyze (fst w) (snd w) \<noteq> ChunkParsed ps\<close>
      by (cases "analyze (fst w) (snd w)") auto
    then show ?thesis using main by blast
  qed
  then show ?thesis using main by blast
qed

lemma sample_table_rows: "count_html_rows (Some sample_table) = Inr 3"
  by (simp add: count_html_rows_def sample_table_matches py_int_def is_decimal_def decimal_value_def digit_value_def)

lemma windows_3_2: "chunk_windows 3 2 = [(1, 2), (3, 3)]"
  by (simp add: chunk_windows_def py_range_def num_chunks_def chunk_window_def upto.simps)

theorem success_iff_patch_found_witness:
  "count_html_rows (Some sample_table) = Inr 3 \<and> (1::int) \<le> 2
   \<and> success (process_html_file_in_chunks (Some sample_table) (answer_with [''B2'']) 2)
   \<and> \<not> success (process_html_file_in_chunks (Some sample_table) (answer_with ([] :: string list)) 2)"
proof -
  have a: "success (process_html_file_in_chunks (Some sample_table) (answer_with [''B2'']) 2)"
    using success_iff_patch_found [OF sample_table_rows, of 2 "answer_with [''B2'']"]
    by (auto simp add: windows_3_2 answer_with_def)
  have b: "\<not> success (process_html_file_in_chunks (Some sample_table) (answer_with ([] :: string list)) 2)"
    using success_iff_patch_found [OF sample_table_rows, of 2 "answer_with ([] :: string list)"]
    by (auto simp add: windows_3_2 answer_with_def)
  show ?thesis using a b sample_table_rows by simp
qed

text \<open>
  Claim C2 as stated (success if and only if at least one window's response was
  successfully parsed) fails where the only window's response parses to the empty array:
  the window is parsed, the run is reported failed.
\<close>

theorem parsed_window_not_success_counterexample:
  "count_html_rows (Some sample_table) = Inr 3
   \<and> chunk_windows 3 30 = [(1, 3)]
   \<and> answer_with ([] :: string list) 1 3 = ChunkParsed []
   \<and> \<not> success (process_html_file_in_chunks (Some sample_table) (answer_with ([] :: string list)) 30)"
  by (simp add: sample_table_rows process_html_file_in_chunks_def answer_with_def
      chunk_windows_def py_range_def num_chunks_def chunk_window_def upto.simps)

section \<open>Python string methods\<close>

text \<open>
  \<^verbatim>\<open>str.isspace\<close> on the code points below 256: the ASCII blanks, the four
  separators 0x1C to 0x1F, NEL (0x85) and the no-break space (0xA0).
\<close>

definition py_isspace :: "char \<Rightarrow> bool" where
  "py_isspace c =
     (let n = (of_char c :: nat)
      in (9 \<le> n \<and> n \<le> 13) \<or> (28 \<le> n \<and> n \<le> 32) \<or> n = 133 \<or> n = 160)"

text \<open>\<^verbatim>\<open>s.strip()\<close> and \<^verbatim>\<open>s.strip(chars)\<close>.\<close>

definition strip_where :: "(char \<Rightarrow> bool) \<Rightarrow> string \<Rightarrow> string" where
  "strip_where P s = rev (dropWhile P (rev (dropWhile P s)))"

definition py_strip :: "string \<Rightarrow> string" where
  "py_strip s = strip_where py_isspace s"

definition py_strip_chars :: "string \<Rightarrow> string \<Rightarrow> string" where
  "py_strip_chars chars s = strip_where (\<lambda>c. c \<in> set chars) s"

text \<open>\<^verbatim>\<open>sub in s\<close> for strings.\<close>

fun py_contains :: "string \<Rightarrow> string \<Rightarrow> bool" where
  "py_contains sub [] = (sub = [])"
| "py_contains sub (c # cs) = (take (length sub) (c # cs) = sub \<or> py_contains sub cs)"

text \<open>
  \<^verbatim>\<open>s.replace(old, new)\<close>: the occurrences of \<open>old\<close> are found from the left and do
  not overlap. With an empty \<open>old\<close>, \<open>new\<close> is put before every character and at the
  end.
\<close>

function py_replace :: "string \<Rightarrow> string \<Rightarrow> string \<Rightarrow> string" where
  "py_replace old new s =
     (if old = [] then new @ concat (map (\<lambda>c. c # new) s)
      else if s = [] then []
      else if take (length old) s = old then new @ py_replace old new (drop (length old) s)
      else hd s # py_replace old new (tl s))"
  by pat_completeness auto
termination
  by (relation "measure (\<lambda>(old, new, s). length s)") auto

declare py_replace.simps [simp del]

section \<open>Matching patch sets to worksheets\<close>

text \<open>One pass of \<^verbatim>\<open>replace('__', '_')\<close>, by pattern matching.\<close>

fun replace_pairs :: "string \<Rightarrow> string" where
  "replace_pairs (a # b # r) =
     (if a = CHR ''_'' \<and> b = CHR ''_'' then CHR ''_'' # replace_pairs r
      else a # replace_pairs (b # r))"
| "replace_pairs s = s"

lemma py_replace_nil: "py_replace ''__'' ''_'' [] = []"
  by (subst py_replace.simps) simp

lemma py_replace_single: "py_replace ''__'' ''_'' [v] = [v]"
  by (subst py_replace.simps, simp, subst py_replace.simps, simp)

lemma py_replace_pairs: "py_replace ''__'' ''_'' s = replace_pairs s"
proof (induction s rule: replace_pairs.induct)
  case (1 a b r)
  show ?case
  proof (cases "a = CHR ''_'' \<and> b = CHR ''_''")
    case True
    then show ?thesis using 1(1) by (subst py_replace.simps) simp
  next
    case False
    then show ?thesis using 1(2) by (subst py_replace.simps) auto
  qed
qed (simp_all add: py_replace_nil py_replace_single)

lemma py_contains_pair [simp]:
  "py_contains ''__'' (a # b # r) = (a = CHR ''_'' \<and> b = CHR ''_'' \<or> py_contains ''__'' (b # r))"
  "py_contains ''__'' [a] = False"
  by auto

lemma replace_pairs_length_le: "length (replace_pairs s) \<le> length s"
  by (induction s rule: replace_pairs.induct) auto

lemma replace_pairs_shorter: "py_contains ''__'' s \<Longrightarrow> length (replace_pairs s) < length s"
proof (induction s rule: replace_pairs.induct)
  case (1 a b r)
  show ?case
  proof (cases "a = CHR ''_'' \<and> b = CHR ''_''")
    case True
    then show ?thesis using replace_pairs_length_le [of r] by simp
  next
    case False
    then have "py_contains ''__'' (b # r)" using 1(3) by (auto simp del: py_contains.simps)
    then have "length (replace_pairs (b # r)) < length (b # r)" using 1(2) False by blast
    then show ?thesis using False by auto
  qed
qed simp_all

lemma py_replace_shorter:
  "py_contains ''__'' s \<Longrightarrow> length (py_replace ''__'' ''_'' s) < length s"
  by (simp only: py_replace_pairs replace_pairs_shorter)

text \<open>
  The loop \<^verbatim>\<open>while '__' in cleaned: cleaned = cleaned.replace('__', '_')\<close>.
\<close>

function remove_double_underscores :: "string \<Rightarrow> string" where
  "remove_double_underscores cleaned =
     (if py_contains ''__'' cleaned
      then remove_double_underscores (py_replace ''__'' ''_'' cleaned)
      else cleaned)"
  by pat_completeness auto
termination
  by (relation "measure length") (auto simp: py_replace_shorter)

declare remove_double_underscores.simps [simp del]

definition clean_sheet_name_for_json :: "string \<Rightarrow> string" where
  "clean_sheet_name_for_json sheet_name =
     (let cleaned = py_strip sheet_name;
          cleaned = py_replace '' '' ''_'' cleaned;
          cleaned = py_replace ''.'' ''_'' cleaned;
          cleaned = py_replace ''('' ''_'' cleaned;
          cleaned = py_replace '')'' '''' cleaned;
          cleaned = py_replace '','' ''_'' cleaned;
          cleaned = py_replace ''-'' ''_'' cleaned;
          cleaned = remove_double_underscores cleaned
      in py_strip_chars ''_'' cleaned)"

text \<open>
  The file looked for in the output folder:
  \<^verbatim>\<open>json_filename = f"{workbook_name}_{sheet_name_clean}.json"\<close>.
\<close>

definition json_filename :: "string \<Rightarrow> string \<Rightarrow> string" where
  "json_filename workbook_name sheet_name =
     workbook_name @ ''_'' @ clean_sheet_name_for_json sheet_name @ ''.json''"


text \<open>
  What the sanitization amounts to, character by character: a space and each of
  \<^verbatim>\<open>. ( , -\<close> become an underscore, \<^verbatim>\<open>)\<close> disappears, every other character stays.
\<close>

definition sheet_char :: "char \<Rightarrow> string" where
  "sheet_char c =
     (if c = CHR '' '' \<or> c = CHR ''.'' \<or> c = CHR ''('' \<or> c = CHR '','' \<or> c = CHR ''-''
      then ''_''
      else if c = CHR '')'' then [] else [c])"

text \<open>Runs of underscores reduced to one underscore.\<close>

fun single_underscores :: "string \<Rightarrow> string" where
  "single_underscores (a # b # r) =
     (if a = CHR ''_'' \<and> b = CHR ''_'' then single_underscores (b # r)
      else a # single_underscores (b # r))"
| "single_underscores s = s"

text \<open>
  The sanitization in the specification's words: whitespace and each of
  \<^verbatim>\<open>. ( ) , -\<close> normalized to single underscores, the result trimmed.
\<close>

definition spec_sanitize :: "string \<Rightarrow> string" where
  "spec_sanitize sheet_name =
     py_strip_chars ''_''
       (single_underscores
          (map (\<lambda>c. if py_isspace c \<or> c \<in> set ''.(),-'' then CHR ''_'' else c) sheet_name))"

subsection \<open>The loop leaves single underscores\<close>

lemma single_underscores_Cons:
  "single_underscores (a # r) =
     (if a = CHR ''_'' \<and> r \<noteq> [] \<and> hd r = CHR ''_'' then single_underscores r
      else a # single_underscores r)"
  by (cases r) simp_all

lemma single_underscores_hd:
  "(single_underscores s = [] \<longleftrightarrow> s = []) \<and> hd (single_underscores s) = hd s"
  by (induction s rule: single_underscores.induct) auto

lemma single_underscores_cong:
  assumes "single_underscores xs = single_underscores ys"
  shows "single_underscores (a # xs) = single_underscores (a # ys)"
proof -
  have "xs = [] \<longleftrightarrow> ys = []"
    using assms single_underscores_hd by metis
  moreover have "hd xs = hd ys"
    using assms single_underscores_hd by metis
  ultimately show ?thesis
    using assms by (simp add: single_underscores_Cons)
qed

lemma single_underscores_replace_pairs:
  "single_underscores (replace_pairs s) = single_underscores s"
proof (induction s rule: replace_pairs.induct)
  case (1 a b r)
  show ?case
  proof (cases "a = CHR ''_'' \<and> b = CHR ''_''")
    case True
    have "single_underscores (CHR ''_'' # replace_pairs r) = single_underscores (CHR ''_'' # r)"
      using 1(1) True by (intro single_underscores_cong) simp
    then show ?thesis using True by simp
  next
    case False
    have "single_underscores (a # replace_pairs (b # r)) = single_underscores (a # b # r)"
      using 1(2) False by (intro single_underscores_cong) simp
    then show ?thesis using False by auto
  qed
qed simp_all

lemma single_underscores_id: "\<not> py_contains ''__'' s \<Longrightarrow> single_underscores s = s"
  by (induction s rule: single_underscores.induct) (auto simp del: py_contains.simps)

lemma remove_double_underscores_eq: "remove_double_underscores s = single_underscores s"
proof (induction s rule: remove_double_underscores.induct)
  case (1 cleaned)
  show ?case
  proof (cases "py_contains ''__'' cleaned")
    case True
    then have "remove_double_underscores cleaned = single_underscores (py_replace ''__'' ''_'' cleaned)"
      using 1 by (subst remove_double_underscores.simps) simp
    then show ?thesis by (simp add: py_replace_pairs single_underscores_replace_pairs)
  next
    case False
    then show ?thesis
      by (subst remove_double_underscores.simps) (simp add: single_underscores_id)
  qed
qed

subsection \<open>Replacing one character\<close>

lemma py_replace_char:
  "py_replace [a] new s = concat (map (\<lambda>c. if c = a then new else [c]) s)"
proof (induction s)
  case Nil
  show ?case by (subst py_replace.simps) simp
next
  case (Cons c cs)
  then show ?case by (subst py_replace.simps) simp
qed

lemma concat_map_concat_map:
  "concat (map f (concat (map g s))) = concat (map (\<lambda>c. concat (map f (g c))) s)"
  by (induction s) simp_all

lemma replace_chain:
  "py_replace ''-'' ''_'' (py_replace '','' ''_'' (py_replace '')'' [] (py_replace ''('' ''_''
     (py_replace ''.'' ''_'' (py_replace '' '' ''_'' s)))))
   = concat (map sheet_char s)"
  unfolding py_replace_char
  by (induction s) (simp_all add: sheet_char_def)

lemma clean_sheet_name_eq:
  "clean_sheet_name_for_json sheet_name =
     py_strip_chars ''_'' (single_underscores (concat (map sheet_char (py_strip sheet_name))))"
  by (simp only: clean_sheet_name_for_json_def Let_def replace_chain remove_double_underscores_eq)

subsection \<open>What the sanitized name looks like\<close>

lemma strip_where_decomp:
  "s = takeWhile P s @ strip_where P s @ rev (takeWhile P (rev (dropWhile P s)))"
proof -
  let ?u = "dropWhile P s"
  have "rev (takeWhile P (rev ?u) @ dropWhile P (rev ?u)) = rev (rev ?u)"
    by (simp only: takeWhile_dropWhile_id)
  then have "rev (dropWhile P (rev ?u)) @ rev (takeWhile P (rev ?u)) = ?u"
    by (simp only: rev_append rev_rev_ident)
  moreover have "s = takeWhile P s @ ?u" by simp
  ultimately show ?thesis unfolding strip_where_def by (metis append_assoc)
qed

lemma strip_where_subset: "set (strip_where P s) \<subseteq> set s"
proof -
  have "set s = set (takeWhile P s @ strip_where P s @ rev (takeWhile P (rev (dropWhile P s))))"
    using strip_where_decomp [of s P] by simp
  then show ?thesis by auto
qed

lemma strip_where_last:
  assumes "strip_where P s \<noteq> []"
  shows "\<not> P (last (strip_where P s))"
proof -
  let ?d = "dropWhile P (rev (dropWhile P s))"
  from assms have ne: "?d \<noteq> []" by (simp add: strip_where_def)
  have "last (strip_where P s) = hd ?d"
    using ne by (simp add: strip_where_def last_rev)
  then show ?thesis using hd_dropWhile [OF ne] by simp
qed

lemma strip_where_hd:
  assumes "strip_where P s \<noteq> []"
  shows "\<not> P (hd (strip_where P s))"
proof -
  let ?u = "dropWhile P s"
  from assms have ne: "dropWhile P (rev ?u) \<noteq> []" by (simp add: strip_where_def)
  have u: "?u \<noteq> []"
  proof
    assume e: "?u = []"
    have "dropWhile P (rev ?u) = []" unfolding e by simp
    with ne show False by contradiction
  qed
  have "hd (strip_where P s) = last (dropWhile P (rev ?u))"
    using ne by (simp add: strip_where_def hd_rev)
  also have "\<dots> = last (rev ?u)"
    using last_appendR [OF ne, of "takeWhile P (rev ?u)"]
    by (simp only: takeWhile_dropWhile_id)
  also have "\<dots> = hd ?u" using u by (simp add: last_rev)
  finally show ?thesis using hd_dropWhile [OF u] by simp
qed

lemma py_contains_pair_iff:
  "py_contains ''__'' s \<longleftrightarrow> (\<exists>xs ys. s = xs @ ''__'' @ ys)"
proof (induction s)
  case Nil
  show ?case by simp
next
  case (Cons c cs)
  show ?case
  proof
    assume "py_contains ''__'' (c # cs)"
    then consider "take 2 (c # cs) = ''__''" | "py_contains ''__'' cs" by auto
    then show "\<exists>xs ys. c # cs = xs @ ''__'' @ ys"
    proof cases
      case 1
      then have "c # cs = [] @ ''__'' @ drop 2 (c # cs)"
        by (metis append_Nil append_take_drop_id)
      then show ?thesis by blast
    next
      case 2
      then obtain xs ys where "cs = xs @ ''__'' @ ys" using Cons.IH by blast
      then have "c # cs = (c # xs) @ ''__'' @ ys" by simp
      then show ?thesis by blast
    qed
  next
    assume "\<exists>xs ys. c # cs = xs @ ''__'' @ ys"
    then obtain xs ys where e: "c # cs = xs @ ''__'' @ ys" by blast
    show "py_contains ''__'' (c # cs)"
    proof (cases xs)
      case Nil
      then show ?thesis using e by auto
    next
      case (Cons x xs')
      then have "cs = xs' @ ''__'' @ ys" using e by simp
      then have "py_contains ''__'' cs" using Cons.IH by blast
      then show ?thesis by simp
    qed
  qed
qed

lemma strip_where_no_pair:
  assumes "\<not> py_contains ''__'' s"
  shows "\<not> py_contains ''__'' (strip_where P s)"
proof
  assume "py_contains ''__'' (strip_where P s)"
  then obtain xs ys where e: "strip_where P s = xs @ ''__'' @ ys"
    using py_contains_pair_iff by blast
  have "s = (takeWhile P s @ xs) @ ''__'' @ (ys @ rev (takeWhile P (rev (dropWhile P s))))"
    using strip_where_decomp [of s P] e by simp
  then have "py_contains ''__'' s" using py_contains_pair_iff by blast
  with assms show False by contradiction
qed

lemma py_contains_pair_Cons:
  "py_contains ''__'' (a # t) =
     (a = CHR ''_'' \<and> t \<noteq> [] \<and> hd t = CHR ''_'' \<or> py_contains ''__'' t)"
proof (cases t)
  case Nil
  then show ?thesis by simp
next
  case (Cons b r)
  then show ?thesis by (simp del: py_contains.simps)
qed

lemma single_underscores_no_pair: "\<not> py_contains ''__'' (single_underscores s)"
proof (induction s rule: single_underscores.induct)
  case (1 a b r)
  show ?case
  proof (cases "a = CHR ''_'' \<and> b = CHR ''_''")
    case True
    then show ?thesis using 1(1) by simp
  next
    case False
    have "hd (single_underscores (b # r)) = b"
      using single_underscores_hd [of "b # r"] by simp
    then show ?thesis
      using False 1(2) by (auto simp: py_contains_pair_Cons simp del: py_contains.simps)
  qed
qed simp_all

lemma single_underscores_subset: "set (single_underscores s) \<subseteq> set s"
  by (induction s rule: single_underscores.induct) auto

lemma sheet_char_set:
  "set (concat (map sheet_char s)) \<inter> set '' .(),-'' = {}"
  by (induction s) (auto simp: sheet_char_def)

lemma clean_sheet_name_chars:
  "set (clean_sheet_name_for_json sheet_name) \<inter> set '' .(),-'' = {}"
proof -
  have "set (clean_sheet_name_for_json sheet_name)
      \<subseteq> set (concat (map sheet_char (py_strip sheet_name)))"
    unfolding clean_sheet_name_eq py_strip_chars_def
    using strip_where_subset single_underscores_subset by (meson subset_trans)
  then show ?thesis using sheet_char_set [of "py_strip sheet_name"] by blast
qed

lemma clean_sheet_name_no_pair:
  "\<not> py_contains ''__'' (clean_sheet_name_for_json sheet_name)"
  unfolding clean_sheet_name_eq py_strip_chars_def
  by (intro strip_where_no_pair single_underscores_no_pair)

lemma clean_sheet_name_ends:
  "clean_sheet_name_for_json sheet_name = []
   \<or> (hd (clean_sheet_name_for_json sheet_name) \<noteq> CHR ''_''
      \<and> last (clean_sheet_name_for_json sheet_name) \<noteq> CHR ''_'')"
proof (cases "clean_sheet_name_for_json sheet_name = []")
  case True
  then show ?thesis by simp
next
  case False
  let ?t = "remove_double_underscores (py_replace ''-'' ''_'' (py_replace '','' ''_''
     (py_replace '')'' [] (py_replace ''('' ''_'' (py_replace ''.'' ''_''
     (py_replace '' '' ''_'' (py_strip sheet_name)))))))"
  have e: "clean_sheet_name_for_json sheet_name = strip_where (\<lambda>c. c \<in> set ''_'') ?t"
    by (simp add: clean_sheet_name_for_json_def py_strip_chars_def)
  show ?thesis
    using False strip_where_hd [of "\<lambda>c. c \<in> set ''_''" ?t]
      strip_where_last [of "\<lambda>c. c \<in> set ''_''" ?t]
    unfolding e by simp
qed

text \<open>
  Claim C4, as the code has it. The sanitized worksheet name is the name with
  surrounding whitespace stripped, every space and every one of \<^verbatim>\<open>. ( , -\<close> turned
  into an underscore, every \<^verbatim>\<open>)\<close> deleted, runs of underscores reduced to one
  underscore and leading and trailing underscores trimmed. So it contains no space and
  none of \<^verbatim>\<open>. ( ) , -\<close>, no two underscores in a row, and neither starts nor ends
  with an underscore. A patch set matches a worksheet exactly when its base name is the
  workbook's base name, an underscore and the sanitized worksheet name, in this order.
\<close>

theorem sheet_name_matching:
  "clean_sheet_name_for_json sheet_name =
     py_strip_chars ''_'' (single_underscores (concat (map sheet_char (py_strip sheet_name))))
   \<and> set (clean_sheet_name_for_json sheet_name) \<inter> set '' .(),-'' = {}
   \<and> \<not> py_contains ''__'' (clean_sheet_name_for_json sheet_name)
   \<and> (clean_sheet_name_for_json sheet_name = []
        \<or> (hd (clean_sheet_name_for_json sheet_name) \<noteq> CHR ''_''
           \<and> last (clean_sheet_name_for_json sheet_name) \<noteq> CHR ''_''))
   \<and> (base @ ''.json'' = json_filename workbook_name sheet_name
        \<longleftrightarrow> base = workbook_name @ ''_'' @ clean_sheet_name_for_json sheet_name)"
proof (intro conjI)
  show "clean_sheet_name_for_json sheet_name =
     py_strip_chars ''_'' (single_underscores (concat (map sheet_char (py_strip sheet_name))))"
    by (rule clean_sheet_name_eq)
  show "set (clean_sheet_name_for_json sheet_name) \<inter> set '' .(),-'' = {}"
    by (rule clean_sheet_name_chars)
  show "\<not> py_contains ''__'' (clean_sheet_name_for_json sheet_name)"
    by (rule clean_sheet_name_no_pair)
  show "clean_sheet_name_for_json sheet_name = []
        \<or> (hd (clean_sheet_name_for_json sheet_name) \<noteq> CHR ''_''
           \<and> last (clean_sheet_name_for_json sheet_name) \<noteq> CHR ''_'')"
    by (rule clean_sheet_name_ends)
  have "base @ ''.json'' = (workbook_name @ ''_'' @ clean_sheet_name_for_json sheet_name) @ ''.json''
      \<longleftrightarrow> base = workbook_name @ ''_'' @ clean_sheet_name_for_json sheet_name"
    by (rule append_same_eq)
  then show "base @ ''.json'' = json_filename workbook_name sheet_name
        \<longleftrightarrow> base = workbook_name @ ''_'' @ clean_sheet_name_for_json sheet_name"
    by (simp add: json_filename_def)
qed

lemma clean_docstring_example:
  "clean_sheet_name_for_json ''1. Fic. amounts (patenting) '' = ''1_Fic_amounts_patenting''"
  by code_simp

theorem sheet_name_matching_witness:
  "clean_sheet_name_for_json ''1. Fic. amounts (patenting) '' = ''1_Fic_amounts_patenting''
   \<and> \<not> py_contains ''__'' (clean_sheet_name_for_json ''1. Fic. amounts (patenting) '')
   \<and> (''book_1_Fic_amounts_patenting'' @ ''.json''
         = json_filename ''book'' ''1. Fic. amounts (patenting) '')"
proof -
  note t = sheet_name_matching [of "''1. Fic. amounts (patenting) ''"
      "''book_1_Fic_amounts_patenting''" "''book''"]
  from t have np: "\<not> py_contains ''__'' (clean_sheet_name_for_json ''1. Fic. amounts (patenting) '')"
    by blast
  from t have m: "''book_1_Fic_amounts_patenting'' @ ''.json''
        = json_filename ''book'' ''1. Fic. amounts (patenting) ''
      \<longleftrightarrow> ''book_1_Fic_amounts_patenting''
        = ''book'' @ ''_'' @ clean_sheet_name_for_json ''1. Fic. amounts (patenting) ''"
    by blast
  have "''book_1_Fic_amounts_patenting''
        = ''book'' @ ''_'' @ clean_sheet_name_for_json ''1. Fic. amounts (patenting) ''"
    by (simp add: clean_docstring_example)
  with m have "''book_1_Fic_amounts_patenting'' @ ''.json''
        = json_filename ''book'' ''1. Fic. amounts (patenting) ''"
    by blast
  then show ?thesis using np clean_docstring_example by blast
qed

text \<open>
  Claim C4 as stated fails on a closing parenthesis inside a name: the specification's
  sanitization turns it into an underscore, the code deletes it.
\<close>

theorem sheet_name_paren_counterexample:
  "clean_sheet_name_for_json ''a)b'' = ''ab'' \<and> spec_sanitize ''a)b'' = ''a_b''"
  by code_simp

section \<open>Merged ranges\<close>

text \<open>
  A merged range of a worksheet, as \<^verbatim>\<open>worksheet.merged_cells.ranges\<close> gives it:
  its four bounds, rows and columns counted from 1.
\<close>

record merged_range =
  min_row :: int
  min_col :: int
  max_row :: int
  max_col :: int

text \<open>\<^verbatim>\<open>range(a, b)\<close>.\<close>

definition py_range_from :: "int \<Rightarrow> int \<Rightarrow> int list" where
  "py_range_from a b = [a..b - 1]"

text \<open>
  The entries of the dictionary \<^verbatim>\<open>find_merged_ranges\<close> builds:
  \<^verbatim>\<open>{'colspan': .., 'rowspan': .., 'is_merged_root': True}\<close> for the top-left cell of a
  range and \<^verbatim>\<open>{'hidden': True}\<close> for the other cells of the range.
\<close>

datatype merge_info = MergedRoot (colspan: "int option") (rowspan: "int option") | HiddenCell

definition mark_hidden ::
  "merged_range \<Rightarrow> int \<Rightarrow> int \<Rightarrow> (int \<times> int \<rightharpoonup> merge_info) \<Rightarrow> (int \<times> int \<rightharpoonup> merge_info)" where
  "mark_hidden r row col merged_ranges =
     (if row \<noteq> min_row r \<or> col \<noteq> min_col r then merged_ranges((row, col) \<mapsto> HiddenCell)
      else merged_ranges)"

definition mark_range ::
  "merged_range \<Rightarrow> (int \<times> int \<rightharpoonup> merge_info) \<Rightarrow> (int \<times> int \<rightharpoonup> merge_info)" where
  "mark_range r merged_ranges =
     (let colspan = max_col r - min_col r + 1;
          rowspan = max_row r - min_row r + 1;
          merged_ranges = merged_ranges((min_row r, min_col r) \<mapsto>
            MergedRoot (if colspan > 1 then Some colspan else None)
                       (if rowspan > 1 then Some rowspan else None))
      in fold (\<lambda>row. fold (mark_hidden r row) (py_range_from (min_col r) (max_col r + 1)))
           (py_range_from (min_row r) (max_row r + 1)) merged_ranges)"

definition find_merged_ranges :: "merged_range list \<Rightarrow> (int \<times> int \<rightharpoonup> merge_info)" where
  "find_merged_ranges ranges = fold mark_range ranges Map.empty"

text \<open>
  How the renderer reads the dictionary for a coordinate: a hidden cell is skipped, a
  root is emitted with its spans, a coordinate without an entry is an ordinary cell.
\<close>

datatype cell_class = Governing "int option" "int option" | Hidden | Ordinary

definition classify :: "(int \<times> int \<rightharpoonup> merge_info) \<Rightarrow> int \<times> int \<Rightarrow> cell_class" where
  "classify merged_ranges p =
     (case merged_ranges p of
        None \<Rightarrow> Ordinary
      | Some HiddenCell \<Rightarrow> Hidden
      | Some (MergedRoot cs rs) \<Rightarrow> Governing cs rs)"

text \<open>
  \<^verbatim>\<open>get_merged_cell_mapping\<close> of the patch applier: every cell of a range is mapped
  to the range's top-left corner.
\<close>

definition map_range ::
  "merged_range \<Rightarrow> (int \<times> int \<rightharpoonup> int \<times> int) \<Rightarrow> (int \<times> int \<rightharpoonup> int \<times> int)" where
  "map_range r merged_mapping =
     fold (\<lambda>row. fold (\<lambda>col m. m((row, col) \<mapsto> (min_row r, min_col r)))
                   (py_range_from (min_col r) (max_col r + 1)))
       (py_range_from (min_row r) (max_row r + 1)) merged_mapping"

definition get_merged_cell_mapping :: "merged_range list \<Rightarrow> (int \<times> int \<rightharpoonup> int \<times> int)" where
  "get_merged_cell_mapping ranges = fold map_range ranges Map.empty"

text \<open>The geometry of a range: its cells, its top-left corner, its spans.\<close>

definition in_range :: "merged_range \<Rightarrow> int \<times> int \<Rightarrow> bool" where
  "in_range r p =
     (min_row r \<le> fst p \<and> fst p \<le> max_row r \<and> min_col r \<le> snd p \<and> snd p \<le> max_col r)"

definition top_left :: "merged_range \<Rightarrow> int \<times> int" where
  "top_left r = (min_row r, min_col r)"

definition valid_range :: "merged_range \<Rightarrow> bool" where
  "valid_range r = (min_row r \<le> max_row r \<and> min_col r \<le> max_col r)"

definition overlaps :: "merged_range \<Rightarrow> merged_range \<Rightarrow> bool" where
  "overlaps r1 r2 =
     (min_row r1 \<le> max_row r2 \<and> min_row r2 \<le> max_row r1 \<and>
      min_col r1 \<le> max_col r2 \<and> min_col r2 \<le> max_col r1)"

text \<open>
  The worksheet invariant: every range is well formed and no two different ranges share
  a cell.
\<close>

definition non_overlapping :: "merged_range list \<Rightarrow> bool" where
  "non_overlapping ranges =
     (list_all valid_range ranges \<and>
      list_all (\<lambda>r1. list_all (\<lambda>r2. r1 = r2 \<or> \<not> overlaps r1 r2) ranges) ranges)"

definition root_info :: "merged_range \<Rightarrow> merge_info" where
  "root_info r =
     MergedRoot (if max_col r - min_col r + 1 > 1 then Some (max_col r - min_col r + 1) else None)
                (if max_row r - min_row r + 1 > 1 then Some (max_row r - min_row r + 1) else None)"

subsection \<open>One range\<close>

lemma fold_mark_hidden:
  "fold (mark_hidden r row) cols m p =
     (if fst p = row \<and> snd p \<in> set cols \<and> p \<noteq> top_left r then Some HiddenCell else m p)"
proof (induction cols arbitrary: m)
  case Nil
  show ?case by simp
next
  case (Cons c cols)
  show ?case
    unfolding fold_simps Cons.IH
    by (cases p) (auto simp: mark_hidden_def top_left_def)
qed

lemma fold_rows_mark_hidden:
  "fold (\<lambda>row. fold (mark_hidden r row) cols) rows m p =
     (if fst p \<in> set rows \<and> snd p \<in> set cols \<and> p \<noteq> top_left r then Some HiddenCell else m p)"
proof (induction rows arbitrary: m)
  case Nil
  show ?case by simp
next
  case (Cons row rows)
  show ?case
    unfolding fold_simps Cons.IH
    by (auto simp: fold_mark_hidden)
qed

lemma set_py_range_from: "set (py_range_from a (b + 1)) = {a..b}"
  by (simp add: py_range_from_def)

lemma mark_range_apply:
  "mark_range r m p =
     (if p = top_left r then Some (root_info r)
      else if in_range r p then Some HiddenCell else m p)"
  unfolding mark_range_def Let_def fold_rows_mark_hidden set_py_range_from
  by (auto simp: top_left_def root_info_def in_range_def)

lemma fold_map_cols:
  "fold (\<lambda>col m. m((row, col) \<mapsto> v)) cols m p =
     (if fst p = row \<and> snd p \<in> set cols then Some v else m p)"
proof (induction cols arbitrary: m)
  case Nil
  show ?case by simp
next
  case (Cons c cols)
  show ?case
    unfolding fold_simps Cons.IH
    by (cases p) auto
qed

lemma fold_map_rows:
  "fold (\<lambda>row. fold (\<lambda>col m. m((row, col) \<mapsto> v)) cols) rows m p =
     (if fst p \<in> set rows \<and> snd p \<in> set cols then Some v else m p)"
proof (induction rows arbitrary: m)
  case Nil
  show ?case by simp
next
  case (Cons row rows)
  show ?case
    unfolding fold_simps Cons.IH
    by (auto simp: fold_map_cols)
qed

lemma map_range_apply:
  "map_range r m p = (if in_range r p then Some (top_left r) else m p)"
  unfolding map_range_def fold_map_rows set_py_range_from
  by (auto simp: top_left_def in_range_def)

subsection \<open>Ranges that do not overlap\<close>

lemma in_range_overlaps: "in_range r1 p \<Longrightarrow> in_range r2 p \<Longrightarrow> overlaps r1 r2"
  by (auto simp: in_range_def overlaps_def)

lemma in_range_top_left: "valid_range r \<Longrightarrow> in_range r (top_left r)"
  by (simp add: valid_range_def in_range_def top_left_def)

lemma non_overlapping_same:
  assumes "non_overlapping rs" and "r1 \<in> set rs" and "r2 \<in> set rs"
    and "in_range r1 p" and "in_range r2 p"
  shows "r1 = r2"
proof -
  have "r1 = r2 \<or> \<not> overlaps r1 r2"
    using assms(1-3) by (auto simp: non_overlapping_def list_all_iff)
  then show ?thesis using in_range_overlaps [OF assms(4,5)] by blast
qed

lemma non_overlapping_butlast: "non_overlapping (rs @ [r]) \<Longrightarrow> non_overlapping rs"
  by (auto simp: non_overlapping_def list_all_iff)

lemma non_overlapping_valid: "non_overlapping rs \<Longrightarrow> r \<in> set rs \<Longrightarrow> valid_range r"
  by (auto simp: non_overlapping_def list_all_iff)

lemma find_merged_ranges_snoc:
  "find_merged_ranges (rs @ [r]) = mark_range r (find_merged_ranges rs)"
  by (simp add: find_merged_ranges_def)

lemma find_merged_ranges_cases:
  assumes "non_overlapping rs"
  shows "(\<forall>r \<in> set rs. p = top_left r \<longrightarrow> find_merged_ranges rs p = Some (root_info r))
       \<and> (\<forall>r \<in> set rs. in_range r p \<and> p \<noteq> top_left r \<longrightarrow> find_merged_ranges rs p = Some HiddenCell)
       \<and> ((\<forall>r \<in> set rs. \<not> in_range r p) \<longrightarrow> find_merged_ranges rs p = None)"
  using assms
proof (induction rs rule: rev_induct)
  case Nil
  show ?case by (simp add: find_merged_ranges_def)
next
  case (snoc r' rs)
  have no: "non_overlapping rs" by (rule non_overlapping_butlast [OF snoc.prems])
  note ih = snoc.IH [OF no]
  have v': "valid_range r'" using snoc.prems by (simp add: non_overlapping_valid)
  have same: "r = r'" if "r \<in> set (rs @ [r'])" "in_range r p" "in_range r' p" for r
    using non_overlapping_same [OF snoc.prems that(1) _ that(2,3)] by simp
  have step: "find_merged_ranges (rs @ [r']) p =
      (if p = top_left r' then Some (root_info r')
       else if in_range r' p then Some HiddenCell else find_merged_ranges rs p)"
    by (simp add: find_merged_ranges_snoc mark_range_apply)
  show ?case
  proof (intro conjI ballI impI)
    fix r assume r: "r \<in> set (rs @ [r'])" and p: "p = top_left r"
    have inr: "in_range r p"
      using in_range_top_left non_overlapping_valid [OF snoc.prems r] p by simp
    show "find_merged_ranges (rs @ [r']) p = Some (root_info r)"
    proof (cases "in_range r' p")
      case True
      then have "r = r'" using same [OF r inr] by simp
      then show ?thesis using step p by simp
    next
      case False
      then have "p \<noteq> top_left r'" using in_range_top_left [OF v'] by auto
      moreover have "r \<in> set rs" using r inr False by auto
      ultimately show ?thesis using step False ih p by simp
    qed
  next
    fix r assume r: "r \<in> set (rs @ [r'])" and p: "in_range r p \<and> p \<noteq> top_left r"
    show "find_merged_ranges (rs @ [r']) p = Some HiddenCell"
    proof (cases "in_range r' p")
      case True
      then have "r = r'" using same [OF r] p by simp
      then show ?thesis using step p by simp
    next
      case False
      then have "p \<noteq> top_left r'" using in_range_top_left [OF v'] by auto
      moreover have "r \<in> set rs" using r p False by auto
      ultimately show ?thesis using step False ih p by simp
    qed
  next
    assume none: "\<forall>r \<in> set (rs @ [r']). \<not> in_range r p"
    then have "\<not> in_range r' p" by simp
    moreover from this have "p \<noteq> top_left r'" using in_range_top_left [OF v'] by auto
    ultimately show "find_merged_ranges (rs @ [r']) p = None"
      using step ih none by simp
  qed
qed

lemma get_merged_cell_mapping_snoc:
  "get_merged_cell_mapping (rs @ [r]) = map_range r (get_merged_cell_mapping rs)"
  by (simp add: get_merged_cell_mapping_def)

lemma get_merged_cell_mapping_in_range:
  assumes "non_overlapping rs" and "r \<in> set rs" and "in_range r p"
  shows "get_merged_cell_mapping rs p = Some (top_left r)"
  using assms
proof (induction rs rule: rev_induct)
  case Nil
  then show ?case by simp
next
  case (snoc r' rs)
  show ?case
  proof (cases "in_range r' p")
    case True
    then have "r = r'"
      using non_overlapping_same [OF snoc.prems(1,2) _ snoc.prems(3), of r'] by simp
    then show ?thesis using True by (simp add: get_merged_cell_mapping_snoc map_range_apply)
  next
    case False
    then have "r \<in> set rs" using snoc.prems(2,3) by auto
    then have "get_merged_cell_mapping rs p = Some (top_left r)"
      using snoc.IH non_overlapping_butlast [OF snoc.prems(1)] snoc.prems(3) by simp
    then show ?thesis using False by (simp add: get_merged_cell_mapping_snoc map_range_apply)
  qed
qed

lemma get_merged_cell_mapping_outside:
  "\<forall>r \<in> set rs. \<not> in_range r p \<Longrightarrow> get_merged_cell_mapping rs p = None"
  by (induction rs rule: rev_induct)
    (simp_all add: get_merged_cell_mapping_def map_range_apply)

text \<open>
  Claim C7. For every worksheet whose merged ranges are well formed and pairwise do not
  overlap, and for every coordinate (so for every coordinate of the bounding rectangle):
  the coordinate is rendered as a governing cell, with the spans of its range, exactly
  when it is the top-left corner of a range; it is hidden exactly when it lies in a range
  and is not that range's top-left corner; it is ordinary exactly when it lies in no
  range. A coordinate has one class, and no coordinate is both a corner and a
  subordinate cell.
\<close>

theorem merged_classification:
  assumes "non_overlapping ranges"
  shows "(classify (find_merged_ranges ranges) p = Ordinary
            \<longleftrightarrow> \<not> list_ex (\<lambda>r. in_range r p) ranges)
       \<and> (classify (find_merged_ranges ranges) p = Hidden
            \<longleftrightarrow> list_ex (\<lambda>r. in_range r p \<and> p \<noteq> top_left r) ranges)
       \<and> ((\<exists>cs rs. classify (find_merged_ranges ranges) p = Governing cs rs)
            \<longleftrightarrow> list_ex (\<lambda>r. p = top_left r) ranges)
       \<and> list_all (\<lambda>r. p = top_left r \<longrightarrow>
            classify (find_merged_ranges ranges) p
              = Governing (colspan (root_info r)) (rowspan (root_info r))) ranges
       \<and> \<not> (list_ex (\<lambda>r. p = top_left r) ranges
            \<and> list_ex (\<lambda>r. in_range r p \<and> p \<noteq> top_left r) ranges)"
proof -
  let ?m = "find_merged_ranges ranges"
  note c = find_merged_ranges_cases [OF assms, of p]
  have gov_at: "classify ?m p = Governing (colspan (root_info r)) (rowspan (root_info r))"
    if "r \<in> set ranges" "p = top_left r" for r
  proof -
    have "?m p = Some (root_info r)" using c that by blast
    then show ?thesis by (simp add: classify_def root_info_def)
  qed
  have hid_at: "classify ?m p = Hidden"
    if "r \<in> set ranges" "in_range r p" "p \<noteq> top_left r" for r
  proof -
    have "?m p = Some HiddenCell" using c that by blast
    then show ?thesis by (simp add: classify_def)
  qed
  have ord_at: "classify ?m p = Ordinary" if "\<forall>r \<in> set ranges. \<not> in_range r p"
  proof -
    have "?m p = None" using c that by blast
    then show ?thesis by (simp add: classify_def)
  qed
  have inr: "in_range r p" if "r \<in> set ranges" "p = top_left r" for r
    using in_range_top_left non_overlapping_valid [OF assms that(1)] that(2) by simp
  have all_gov: "list_all (\<lambda>r. p = top_left r \<longrightarrow>
      classify ?m p = Governing (colspan (root_info r)) (rowspan (root_info r))) ranges"
    using gov_at by (simp add: list_all_iff)
  consider (corner) r where "r \<in> set ranges" "p = top_left r"
    | (sub) r where "r \<in> set ranges" "in_range r p" "p \<noteq> top_left r"
        "\<forall>r \<in> set ranges. p \<noteq> top_left r"
    | (out) "\<forall>r \<in> set ranges. \<not> in_range r p"
    by blast
  then show ?thesis
  proof cases
    case corner
    have nosub: "\<not> list_ex (\<lambda>r. in_range r p \<and> p \<noteq> top_left r) ranges"
      using non_overlapping_same [OF assms _ corner(1) _ inr [OF corner]] corner(2)
      by (auto simp: list_ex_iff)
    have isin: "list_ex (\<lambda>r. in_range r p) ranges"
      using corner inr [OF corner] by (auto simp: list_ex_iff)
    have iscorner: "list_ex (\<lambda>r. p = top_left r) ranges"
      using corner by (auto simp: list_ex_iff)
    show ?thesis
      using nosub isin iscorner all_gov by (simp add: gov_at [OF corner])
  next
    case sub
    have issub: "list_ex (\<lambda>r. in_range r p \<and> p \<noteq> top_left r) ranges"
      using sub(1-3) by (auto simp: list_ex_iff)
    have isin: "list_ex (\<lambda>r. in_range r p) ranges"
      using sub(1,2) by (auto simp: list_ex_iff)
    have nocorner: "\<not> list_ex (\<lambda>r. p = top_left r) ranges"
      using sub(4) by (auto simp: list_ex_iff)
    show ?thesis
      using issub isin nocorner all_gov by (simp add: hid_at [OF sub(1-3)])
  next
    case out
    have nosub: "\<not> list_ex (\<lambda>r. in_range r p \<and> p \<noteq> top_left r) ranges"
      using out by (auto simp: list_ex_iff)
    have noin: "\<not> list_ex (\<lambda>r. in_range r p) ranges"
      using out by (auto simp: list_ex_iff)
    have nocorner: "\<not> list_ex (\<lambda>r. p = top_left r) ranges"
      using out inr by (auto simp: list_ex_iff)
    show ?thesis
      using nosub noin nocorner all_gov by (simp add: ord_at [OF out])
  qed
qed


lemma summary_ranges_ok:
  "non_overlapping [\<lparr>min_row = 1, min_col = 1, max_row = 1, max_col = 2\<rparr>,
                    \<lparr>min_row = 3, min_col = 1, max_row = 4, max_col = 2\<rparr>]"
  by (simp add: non_overlapping_def valid_range_def overlaps_def)

theorem merged_classification_witness:
  "non_overlapping [\<lparr>min_row = 1, min_col = 1, max_row = 1, max_col = 2\<rparr>,
                    \<lparr>min_row = 3, min_col = 1, max_row = 4, max_col = 2\<rparr>]
   \<and> classify (find_merged_ranges [\<lparr>min_row = 1, min_col = 1, max_row = 1, max_col = 2\<rparr>,
                    \<lparr>min_row = 3, min_col = 1, max_row = 4, max_col = 2\<rparr>]) (1, 2) = Hidden
   \<and> classify (find_merged_ranges [\<lparr>min_row = 1, min_col = 1, max_row = 1, max_col = 2\<rparr>,
                    \<lparr>min_row = 3, min_col = 1, max_row = 4, max_col = 2\<rparr>]) (2, 1) = Ordinary
   \<and> classify (find_merged_ranges [\<lparr>min_row = 1, min_col = 1, max_row = 1, max_col = 2\<rparr>,
                    \<lparr>min_row = 3, min_col = 1, max_row = 4, max_col = 2\<rparr>]) (3, 1)
        = Governing (Some 2) (Some 2)"
proof -
  let ?rs = "[\<lparr>min_row = 1, min_col = 1, max_row = 1, max_col = 2\<rparr>,
              \<lparr>min_row = 3, min_col = 1, max_row = 4, max_col = 2\<rparr>]"
  have a: "classify (find_merged_ranges ?rs) (1, 2) = Hidden"
    using merged_classification [OF summary_ranges_ok, of "(1, 2)"]
    by (simp add: in_range_def top_left_def)
  have b: "classify (find_merged_ranges ?rs) (2, 1) = Ordinary"
    using merged_classification [OF summary_ranges_ok, of "(2, 1)"]
    by (simp add: in_range_def top_left_def)
  have c: "classify (find_merged_ranges ?rs) (3, 1) = Governing (Some 2) (Some 2)"
    using merged_classification [OF summary_ranges_ok, of "(3, 1)"]
    by (simp add: in_range_def top_left_def root_info_def)
  show ?thesis using a b c summary_ranges_ok by simp
qed

section \<open>The patch applier\<close>

text \<open>
  The scalar a patch carries and a cell holds: JSON's null, a boolean, an integer, a
  float or a string. The type \<open>'f\<close> stands for Python's floats.
\<close>

datatype 'f scalar = PyNone | PyBool bool | PyInt int | PyFloat 'f | PyStr string

text \<open>
  One object of a patch set, read with \<^verbatim>\<open>cell_info.get(..)\<close>: a missing key and
  JSON's null both give \<^verbatim>\<open>None\<close>.
\<close>

record 'f cell_patch =
  cell_reference :: "string option"
  patch_value :: "'f scalar"
  patch_context :: "string option"

text \<open>
  What the applier takes from openpyxl and from Python, as parameters:
  \<^verbatim>\<open>openpyxl.utils.coordinate_to_tuple\<close> and \<^verbatim>\<open>openpyxl.utils.get_column_letter\<close>
  (\<open>None\<close> where they raise), \<^verbatim>\<open>float(s)\<close> (\<open>None\<close> where it raises
  \<^verbatim>\<open>ValueError\<close>), and whether the assignment \<^verbatim>\<open>worksheet[key] = value\<close> is
  accepted by a worksheet with the given merged ranges (it raises for a key that is not
  one cell, for a cell inside a merged range other than its corner, and for a value
  that cannot be stored).
\<close>

record 'f runtime =
  coordinate_to_tuple :: "string \<Rightarrow> (int \<times> int) option"
  get_column_letter :: "int \<Rightarrow> string option"
  py_float :: "string \<Rightarrow> 'f option"
  cell_writable :: "merged_range list \<Rightarrow> string \<Rightarrow> 'f scalar \<Rightarrow> bool"

text \<open>
  A worksheet: its merged ranges and the values assigned to its cells, under the key
  of the assignment.
\<close>

record 'f worksheet =
  merged_cells :: "merged_range list"
  cells :: "string \<rightharpoonup> 'f scalar"

text \<open>
  \<^verbatim>\<open>resolve_merged_cell_reference\<close>. Every exception inside is caught and gives the
  reference back unresolved.
\<close>

definition resolve_merged_cell_reference ::
  "'f runtime \<Rightarrow> string \<Rightarrow> (int \<times> int \<rightharpoonup> int \<times> int) \<Rightarrow> string" where
  "resolve_merged_cell_reference rt cell_ref merged_mapping =
     (case coordinate_to_tuple rt cell_ref of
        None \<Rightarrow> cell_ref
      | Some (row, col) \<Rightarrow>
          (case merged_mapping (row, col) of
             Some (top_left_row, top_left_col) \<Rightarrow>
               (case get_column_letter rt top_left_col of
                  None \<Rightarrow> cell_ref
                | Some letter \<Rightarrow> letter @ py_str top_left_row)
           | None \<Rightarrow> cell_ref))"

text \<open>
  \<^verbatim>\<open>str.isdigit\<close> on the code points below 256: the decimal digits and the
  superscripts two, three and one (0xB2, 0xB3, 0xB9).
\<close>

definition isdigit_char :: "char \<Rightarrow> bool" where
  "isdigit_char c =
     (is_decimal c \<or> (of_char c :: nat) = 178 \<or> (of_char c :: nat) = 179 \<or> (of_char c :: nat) = 185)"

definition py_isdigit :: "string \<Rightarrow> bool" where
  "py_isdigit s = (s \<noteq> [] \<and> list_all isdigit_char s)"

text \<open>
  The conversion of the patch value in \<^verbatim>\<open>update_excel_sheet\<close>. The
  \<^verbatim>\<open>try\<close> around \<^verbatim>\<open>float\<close> catches \<^verbatim>\<open>ValueError\<close>; an exception of
  \<^verbatim>\<open>int\<close> is not caught here.
\<close>

definition coerce_value :: "'f runtime \<Rightarrow> 'f scalar \<Rightarrow> py_error + 'f scalar" where
  "coerce_value rt v =
     (case v of
        PyStr s \<Rightarrow>
          (let clean_value = py_replace '','' [] s
           in if py_isdigit clean_value
              then (case py_int clean_value of Inl e \<Rightarrow> Inl e | Inr n \<Rightarrow> Inr (PyInt n))
              else (case py_float rt clean_value of
                      Some f \<Rightarrow> Inr (PyFloat f)
                    | None \<Rightarrow> Inr (PyStr s)))
      | _ \<Rightarrow> Inr v)"

text \<open>
  The body of the loop over \<^verbatim>\<open>cell_data\<close>: the worksheet and \<^verbatim>\<open>updates_made\<close>
  before and after one patch. An exception on the way is caught, and the loop goes on
  with the next patch.
\<close>

definition update_cell ::
  "'f runtime \<Rightarrow> (int \<times> int \<rightharpoonup> int \<times> int) \<Rightarrow> 'f cell_patch
     \<Rightarrow> 'f worksheet \<times> nat \<Rightarrow> 'f worksheet \<times> nat" where
  "update_cell rt merged_mapping cell_info st =
     (case cell_reference cell_info of
        None \<Rightarrow> st
      | Some cell_ref \<Rightarrow>
          if cell_ref = [] \<or> patch_value cell_info = PyNone \<or> patch_value cell_info = PyStr []
          then st
          else if length cell_ref < 2 then st
          else
            (let resolved_cell_ref = resolve_merged_cell_reference rt cell_ref merged_mapping
             in case coerce_value rt (patch_value cell_info) of
                  Inl e \<Rightarrow> st
                | Inr v \<Rightarrow>
                    if cell_writable rt (merged_cells (fst st)) resolved_cell_ref v
                    then ((fst st)\<lparr>cells := (cells (fst st))(resolved_cell_ref \<mapsto> v)\<rparr>,
                          snd st + 1)
                    else st))"

text \<open>The loop of \<^verbatim>\<open>update_excel_sheet\<close> on the worksheet it has looked up.\<close>

definition update_worksheet ::
  "'f runtime \<Rightarrow> 'f worksheet \<Rightarrow> 'f cell_patch list \<Rightarrow> 'f worksheet \<times> nat" where
  "update_worksheet rt worksheet cell_data =
     (let merged_mapping = get_merged_cell_mapping (merged_cells worksheet)
      in fold (update_cell rt merged_mapping) cell_data (worksheet, 0))"

text \<open>A workbook: its worksheets under their names, in the order of the workbook.\<close>

record 'f workbook =
  sheets :: "(string \<times> 'f worksheet) list"

definition sheetnames :: "'f workbook \<Rightarrow> string list" where
  "sheetnames workbook = map fst (sheets workbook)"

definition put_sheet :: "string \<Rightarrow> 'f worksheet \<Rightarrow> 'f workbook \<Rightarrow> 'f workbook" where
  "put_sheet sheet_name worksheet workbook =
     workbook\<lparr>sheets := map (\<lambda>(n, w). if n = sheet_name then (n, worksheet) else (n, w))
                            (sheets workbook)\<rparr>"

text \<open>
  \<^verbatim>\<open>update_excel_sheet\<close>: the workbook after the updates and the number of updates
  made.
\<close>

definition update_excel_sheet ::
  "'f runtime \<Rightarrow> 'f workbook \<Rightarrow> string \<Rightarrow> 'f cell_patch list \<Rightarrow> 'f workbook \<times> nat" where
  "update_excel_sheet rt workbook sheet_name cell_data =
     (case map_of (sheets workbook) sheet_name of
        None \<Rightarrow> (workbook, 0)
      | Some worksheet \<Rightarrow>
          (let (worksheet', updates_made) = update_worksheet rt worksheet cell_data
           in (put_sheet sheet_name worksheet' workbook, updates_made)))"

text \<open>
  What \<^verbatim>\<open>load_json_data\<close> finds in a file of the output folder: text that is not
  JSON, one object, an array of objects, or some other JSON value.
\<close>

datatype 'f json_file =
  InvalidJson | JsonObject "'f cell_patch" | JsonArray "'f cell_patch list" | JsonOther

record 'f workbook_state =
  the_workbook :: "'f workbook"
  workbook_updated :: bool
  total_updates :: nat

text \<open>The body of the loop over the sheet names of one workbook.\<close>

definition process_sheet ::
  "'f runtime \<Rightarrow> (string \<rightharpoonup> 'f json_file) \<Rightarrow> string \<Rightarrow> string
     \<Rightarrow> 'f workbook_state \<Rightarrow> 'f workbook_state" where
  "process_sheet rt output_folder workbook_name sheet_name st =
     (case output_folder (json_filename workbook_name sheet_name) of
        None \<Rightarrow> st
      | Some file \<Rightarrow>
          (case (case file of
                   InvalidJson \<Rightarrow> None
                 | JsonObject cell_info \<Rightarrow> Some [cell_info]
                 | JsonArray cell_data \<Rightarrow> Some cell_data
                 | JsonOther \<Rightarrow> None) of
             None \<Rightarrow> st
           | Some cell_data \<Rightarrow>
               (let (workbook', updates_made) =
                      update_excel_sheet rt (the_workbook st) sheet_name cell_data
                in \<lparr>the_workbook = workbook',
                    workbook_updated = True,
                    total_updates = total_updates st + updates_made\<rparr>)))"

text \<open>
  One workbook in \<^verbatim>\<open>update_excel_from_json\<close>: the workbook saved to the folder of
  updated workbooks (\<open>None\<close>: nothing is saved) and the total of the updates.
\<close>

definition update_workbook_from_json ::
  "'f runtime \<Rightarrow> (string \<rightharpoonup> 'f json_file) \<Rightarrow> string \<Rightarrow> 'f workbook
     \<Rightarrow> 'f workbook option \<times> nat" where
  "update_workbook_from_json rt output_folder workbook_name workbook =
     (let st = fold (process_sheet rt output_folder workbook_name) (sheetnames workbook)
                 \<lparr>the_workbook = workbook, workbook_updated = False, total_updates = 0\<rparr>
      in (if workbook_updated st then Some (the_workbook st) else None, total_updates st))"

subsection \<open>A small runtime for concrete runs\<close>

text \<open>
  A runtime that understands plain references (capital letters followed by decimal
  digits), columns 1 to 18278 and plain decimal literals \<^verbatim>\<open>digits.digits\<close>, and
  that refuses every other input.
\<close>

fun column_letters :: "nat \<Rightarrow> string" where
  "column_letters n =
     (if n = 0 then []
      else column_letters ((n - 1) div 26) @ [char_of (65 + (n - 1) mod 26)])"

declare column_letters.simps [simp del]

definition is_capital :: "char \<Rightarrow> bool" where
  "is_capital c = (65 \<le> (of_char c :: nat) \<and> (of_char c :: nat) \<le> 90)"

definition column_number :: "string \<Rightarrow> int" where
  "column_number s = foldl (\<lambda>a c. 26 * a + (int (of_char c) - 64)) 0 s"

definition plain_coordinate_to_tuple :: "string \<Rightarrow> (int \<times> int) option" where
  "plain_coordinate_to_tuple s =
     (let letters = takeWhile is_capital s; digits = dropWhile is_capital s
      in if letters \<noteq> [] \<and> length letters \<le> 3 \<and> digits \<noteq> [] \<and> list_all is_decimal digits
         then Some (decimal_value digits, column_number letters) else None)"

definition plain_get_column_letter :: "int \<Rightarrow> string option" where
  "plain_get_column_letter col = (if 1 \<le> col \<and> col \<le> 18278 then Some (column_letters (nat col)) else None)"

definition plain_float :: "string \<Rightarrow> rat option" where
  "plain_float s =
     (let whole = takeWhile is_decimal s; rest = dropWhile is_decimal s
      in if whole \<noteq> [] \<and> take 1 rest = ''.'' \<and> drop 1 rest \<noteq> [] \<and> list_all is_decimal (drop 1 rest)
         then Some (of_int (decimal_value whole)
                    + of_int (decimal_value (drop 1 rest)) / 10 ^ length (drop 1 rest))
         else None)"

definition plain_writable :: "merged_range list \<Rightarrow> string \<Rightarrow> rat scalar \<Rightarrow> bool" where
  "plain_writable ranges key v =
     (case plain_coordinate_to_tuple key of
        None \<Rightarrow> False
      | Some p \<Rightarrow> 1 \<le> fst p \<and> \<not> list_ex (\<lambda>r. in_range r p \<and> p \<noteq> top_left r) ranges)"

definition plain_runtime :: "rat runtime" where
  "plain_runtime =
     \<lparr>coordinate_to_tuple = plain_coordinate_to_tuple,
      get_column_letter = plain_get_column_letter,
      py_float = plain_float,
      cell_writable = plain_writable\<rparr>"

definition summary_sheet :: "rat worksheet" where
  "summary_sheet =
     \<lparr>merged_cells = [\<lparr>min_row = 1, min_col = 1, max_row = 1, max_col = 2\<rparr>],
      cells = Map.empty\<rparr>"

subsection \<open>Coercion of patch values\<close>

lemma py_replace_comma: "py_replace '','' [] s = filter (\<lambda>c. c \<noteq> CHR '','') s"
  unfolding py_replace_char by (induction s) simp_all

lemma coerce_value_str:
  "coerce_value rt (PyStr s) =
     (let clean_value = filter (\<lambda>c. c \<noteq> CHR '','') s
      in if py_isdigit clean_value
         then (case py_int clean_value of Inl e \<Rightarrow> Inl e | Inr n \<Rightarrow> Inr (PyInt n))
         else (case py_float rt clean_value of
                 Some f \<Rightarrow> Inr (PyFloat f)
               | None \<Rightarrow> Inr (PyStr s)))"
  by (simp add: coerce_value_def py_replace_comma)

lemma coerce_one_comma_two: "coerce_value rt (PyStr ''1,2'') = Inr (PyInt 12)"
  by (simp add: coerce_value_str py_isdigit_def isdigit_char_def is_decimal_def py_int_def
      decimal_value_def digit_value_def)

lemma coercion_examples:
  assumes "py_float rt ''12.5'' = Some x" and "py_float rt ''N/A'' = None"
  shows "coerce_value rt (PyStr ''1,234'') = Inr (PyInt 1234)"
    and "coerce_value rt (PyStr ''12.5'') = Inr (PyFloat x)"
    and "coerce_value rt (PyStr ''N/A'') = Inr (PyStr ''N/A'')"
  using assms
  by (simp_all add: coerce_value_str py_isdigit_def isdigit_char_def is_decimal_def py_int_def
      decimal_value_def digit_value_def)

lemma update_cell_valid:
  assumes "cell_reference cell_info = Some cell_ref" and "2 \<le> length cell_ref"
    and "patch_value cell_info \<noteq> PyNone" and "patch_value cell_info \<noteq> PyStr []"
    and "coerce_value rt (patch_value cell_info) = Inr v"
  shows "update_cell rt merged_mapping cell_info (ws, n) =
     (if cell_writable rt (merged_cells ws) (resolve_merged_cell_reference rt cell_ref merged_mapping) v
      then (ws\<lparr>cells := (cells ws)(resolve_merged_cell_reference rt cell_ref merged_mapping \<mapsto> v)\<rparr>, n + 1)
      else (ws, n))"
proof -
  have "cell_ref \<noteq> []" using assms(2) by auto
  moreover have "\<not> length cell_ref < 2" using assms(2) by simp
  ultimately show ?thesis
    using assms(1,3,4,5) by (simp add: update_cell_def)
qed

lemma update_cell_raises:
  assumes "coerce_value rt (patch_value cell_info) = Inl e"
  shows "update_cell rt merged_mapping cell_info st = st"
  using assms by (simp add: update_cell_def split: option.splits)

lemma update_cell_merged_cells:
  "merged_cells (fst (update_cell rt merged_mapping cell_info st)) = merged_cells (fst st)"
  by (simp add: update_cell_def Let_def split: option.splits sum.splits)

lemma update_cell_twice:
  "fst (update_cell rt merged_mapping cell_info (update_cell rt merged_mapping cell_info st))
     = fst (update_cell rt merged_mapping cell_info st)"
  by (cases st) (simp add: update_cell_def Let_def split: option.splits sum.splits)

text \<open>
  Claim C10. For every textual patch value the string that is tested and parsed as a
  number is the value with every comma removed, wherever the comma stands; so the value
  \<^verbatim>\<open>"1,2"\<close> is coerced to the integer 12, and 12 is what a patch with this value
  writes to its cell.
\<close>

theorem coercion_removes_every_comma:
  "py_replace '','' [] s = filter (\<lambda>c. c \<noteq> CHR '','') s
   \<and> coerce_value rt (PyStr s) =
       (let clean_value = filter (\<lambda>c. c \<noteq> CHR '','') s
        in if py_isdigit clean_value
           then (case py_int clean_value of Inl e \<Rightarrow> Inl e | Inr n \<Rightarrow> Inr (PyInt n))
           else (case py_float rt clean_value of
                   Some f \<Rightarrow> Inr (PyFloat f)
                 | None \<Rightarrow> Inr (PyStr s)))
   \<and> coerce_value rt (PyStr ''1,2'') = Inr (PyInt 12)
   \<and> (2 \<le> length cell_ref \<and>
        cell_writable rt (merged_cells ws)
          (resolve_merged_cell_reference rt cell_ref merged_mapping) (PyInt 12) \<longrightarrow>
        update_cell rt merged_mapping
          \<lparr>cell_reference = Some cell_ref, patch_value = PyStr ''1,2'', patch_context = c\<rparr> (ws, n)
        = (ws\<lparr>cells := (cells ws)
               (resolve_merged_cell_reference rt cell_ref merged_mapping \<mapsto> PyInt 12)\<rparr>, n + 1))"
proof (intro conjI impI)
  show "py_replace '','' [] s = filter (\<lambda>c. c \<noteq> CHR '','') s"
    by (rule py_replace_comma)
  show "coerce_value rt (PyStr s) =
       (let clean_value = filter (\<lambda>c. c \<noteq> CHR '','') s
        in if py_isdigit clean_value
           then (case py_int clean_value of Inl e \<Rightarrow> Inl e | Inr n \<Rightarrow> Inr (PyInt n))
           else (case py_float rt clean_value of
                   Some f \<Rightarrow> Inr (PyFloat f)
                 | None \<Rightarrow> Inr (PyStr s)))"
    by (rule coerce_value_str)
  show "coerce_value rt (PyStr ''1,2'') = Inr (PyInt 12)"
    by (rule coerce_one_comma_two)
next
  let ?ci = "\<lparr>cell_reference = Some cell_ref, patch_value = PyStr ''1,2'', patch_context = c\<rparr>"
  assume a: "2 \<le> length cell_ref \<and>
        cell_writable rt (merged_cells ws)
          (resolve_merged_cell_reference rt cell_ref merged_mapping) (PyInt 12)"
  have "update_cell rt merged_mapping ?ci (ws, n) =
     (if cell_writable rt (merged_cells ws) (resolve_merged_cell_reference rt cell_ref merged_mapping) (PyInt 12)
      then (ws\<lparr>cells := (cells ws)(resolve_merged_cell_reference rt cell_ref merged_mapping \<mapsto> PyInt 12)\<rparr>, n + 1)
      else (ws, n))"
    using a by (intro update_cell_valid) (simp_all add: coerce_one_comma_two)
  then show "update_cell rt merged_mapping ?ci (ws, n)
        = (ws\<lparr>cells := (cells ws)
               (resolve_merged_cell_reference rt cell_ref merged_mapping \<mapsto> PyInt 12)\<rparr>, n + 1)"
    using a by simp
qed

lemma summary_mapping:
  "get_merged_cell_mapping (merged_cells summary_sheet) p =
     (if in_range \<lparr>min_row = 1, min_col = 1, max_row = 1, max_col = 2\<rparr> p then Some (1, 1) else None)"
  by (simp add: summary_sheet_def get_merged_cell_mapping_def map_range_apply top_left_def)

lemma plain_C3: "plain_coordinate_to_tuple ''C3'' = Some (3, 3)"
  by code_simp

lemma resolve_C3:
  "resolve_merged_cell_reference plain_runtime ''C3''
     (get_merged_cell_mapping (merged_cells summary_sheet)) = ''C3''"
  by (simp add: resolve_merged_cell_reference_def plain_runtime_def plain_C3 summary_mapping
      in_range_def)

lemma writable_C3: "cell_writable plain_runtime (merged_cells summary_sheet) ''C3'' v"
  by (simp add: plain_runtime_def plain_writable_def plain_C3 summary_sheet_def in_range_def)

theorem coercion_removes_every_comma_witness:
  "2 \<le> length ''C3''
   \<and> cell_writable plain_runtime (merged_cells summary_sheet)
        (resolve_merged_cell_reference plain_runtime ''C3''
           (get_merged_cell_mapping (merged_cells summary_sheet))) (PyInt 12)
   \<and> update_cell plain_runtime (get_merged_cell_mapping (merged_cells summary_sheet))
        \<lparr>cell_reference = Some ''C3'', patch_value = PyStr ''1,2'', patch_context = None\<rparr>
        (summary_sheet, 0)
      = (summary_sheet\<lparr>cells := (cells summary_sheet)(''C3'' \<mapsto> PyInt 12)\<rparr>, 1)"
proof -
  have w: "cell_writable plain_runtime (merged_cells summary_sheet)
        (resolve_merged_cell_reference plain_runtime ''C3''
           (get_merged_cell_mapping (merged_cells summary_sheet))) (PyInt 12)"
    by (simp only: resolve_C3 writable_C3)
  have l: "2 \<le> length ''C3''" by simp
  from coercion_removes_every_comma [of _ plain_runtime "''C3''" summary_sheet
      "get_merged_cell_mapping (merged_cells summary_sheet)" None 0]
  have "update_cell plain_runtime (get_merged_cell_mapping (merged_cells summary_sheet))
        \<lparr>cell_reference = Some ''C3'', patch_value = PyStr ''1,2'', patch_context = None\<rparr>
        (summary_sheet, 0)
      = (summary_sheet\<lparr>cells := (cells summary_sheet)
           (resolve_merged_cell_reference plain_runtime ''C3''
              (get_merged_cell_mapping (merged_cells summary_sheet)) \<mapsto> PyInt 12)\<rparr>, 0 + 1)"
    using w l by blast
  then show ?thesis using w l by (simp add: resolve_C3)
qed

subsection \<open>A digit that is not decimal\<close>

lemma coerce_superscript: "coerce_value rt (PyStr [CHR 0xB2]) = Inl ValueError"
  by (simp add: coerce_value_str py_isdigit_def isdigit_char_def is_decimal_def py_int_def)

text \<open>
  Claim C9 on the code. The values \<^verbatim>\<open>"1,234"\<close>, \<^verbatim>\<open>"12.5"\<close> and \<^verbatim>\<open>"N/A"\<close> are
  coerced as the claim says (lemma \<open>coercion_examples\<close>). A value made of a superscript
  two passes \<^verbatim>\<open>isdigit()\<close>, \<^verbatim>\<open>int\<close> raises \<^verbatim>\<open>ValueError\<close> on it, no float
  parse follows and the text is not kept: the exception leaves the conversion, the patch
  is dropped and the worksheet stays as it was.
\<close>

theorem superscript_value_dropped:
  "py_isdigit [CHR 0xB2]
   \<and> py_int [CHR 0xB2] = Inl ValueError
   \<and> coerce_value rt (PyStr [CHR 0xB2]) = Inl ValueError
   \<and> update_worksheet rt ws
        [\<lparr>cell_reference = Some ''B2'', patch_value = PyStr [CHR 0xB2], patch_context = c\<rparr>]
      = (ws, 0)"
proof (intro conjI)
  show "py_isdigit [CHR 0xB2]" by (simp add: py_isdigit_def isdigit_char_def)
  show "py_int [CHR 0xB2] = Inl ValueError" by (simp add: py_int_def is_decimal_def)
  show "coerce_value rt (PyStr [CHR 0xB2]) = Inl ValueError" by (rule coerce_superscript)
  show "update_worksheet rt ws
        [\<lparr>cell_reference = Some ''B2'', patch_value = PyStr [CHR 0xB2], patch_context = c\<rparr>]
      = (ws, 0)"
    by (simp add: update_worksheet_def update_cell_raises coerce_superscript)
qed

subsection \<open>A patch on a subordinate cell of a merged range\<close>

lemma resolve_subordinate:
  assumes "non_overlapping ranges" and "r \<in> set ranges"
    and "coordinate_to_tuple rt cell_ref = Some p" and "in_range r p"
    and "get_column_letter rt (min_col r) = Some letter"
  shows "resolve_merged_cell_reference rt cell_ref (get_merged_cell_mapping ranges)
           = letter @ py_str (min_row r)"
proof -
  have "get_merged_cell_mapping ranges p = Some (min_row r, min_col r)"
    using get_merged_cell_mapping_in_range [OF assms(1,2,4)] by (simp add: top_left_def)
  then show ?thesis
    using assms(3,5) by (cases p) (simp add: resolve_merged_cell_reference_def)
qed

lemma update_cell_count_free:
  "fst (update_cell rt merged_mapping cell_info (ws, n))
     = fst (update_cell rt merged_mapping cell_info (ws, n'))"
  by (simp add: update_cell_def Let_def split: option.splits sum.splits)

lemma update_worksheet_single:
  "update_worksheet rt ws [cell_info]
     = update_cell rt (get_merged_cell_mapping (merged_cells ws)) cell_info (ws, 0)"
  by (simp add: update_worksheet_def)

lemma update_worksheet_again:
  "fst (update_worksheet rt (fst (update_worksheet rt ws [cell_info])) [cell_info])
     = fst (update_worksheet rt ws [cell_info])"
proof -
  let ?m = "get_merged_cell_mapping (merged_cells ws)"
  let ?st = "update_cell rt ?m cell_info (ws, 0)"
  have mc: "merged_cells (fst ?st) = merged_cells ws"
    using update_cell_merged_cells [of rt ?m cell_info "(ws, 0)"] by simp
  have "fst (update_worksheet rt (fst ?st) [cell_info])
      = fst (update_cell rt ?m cell_info (fst ?st, 0))"
    by (simp add: update_worksheet_single mc)
  also have "\<dots> = fst (update_cell rt ?m cell_info (fst ?st, snd ?st))"
    by (rule update_cell_count_free)
  also have "\<dots> = fst ?st"
    using update_cell_twice [of rt ?m cell_info "(ws, 0)"] by simp
  finally show ?thesis by (simp add: update_worksheet_single)
qed

lemma update_worksheet_repeated:
  "fst (update_worksheet rt ws [cell_info, cell_info]) = fst (update_worksheet rt ws [cell_info])"
  using update_cell_twice [of rt "get_merged_cell_mapping (merged_cells ws)" cell_info "(ws, 0)"]
  by (simp add: update_worksheet_def Let_def)

text \<open>
  Claim C6. Take a worksheet whose merged ranges are well formed and do not overlap, a
  range \<open>r\<close> of it, and an applicable patch whose reference denotes a cell of \<open>r\<close> other
  than the top-left corner. Then the reference is resolved to the corner's reference
  (column letter of \<open>min_col\<close>, then \<open>min_row\<close>); applying the patch assigns the coerced
  value to that key and to no other (when the worksheet accepts the assignment; else it
  assigns nothing); every key that does not denote the corner, the patch's own reference
  among them, keeps its value; and applying the same patch a second time, in a second
  call or twice in one patch set, leaves the worksheet as the first application left it.
\<close>

theorem merged_patch_redirected:
  assumes "non_overlapping (merged_cells ws)" and "r \<in> set (merged_cells ws)"
    and "coordinate_to_tuple rt cell_ref = Some p" and "in_range r p" and "p \<noteq> top_left r"
    and "get_column_letter rt (min_col r) = Some letter"
    and "coordinate_to_tuple rt (letter @ py_str (min_row r)) = Some (top_left r)"
    and "cell_reference cell_info = Some cell_ref" and "2 \<le> length cell_ref"
    and "patch_value cell_info \<noteq> PyNone" and "patch_value cell_info \<noteq> PyStr []"
    and "coerce_value rt (patch_value cell_info) = Inr v"
  shows "resolve_merged_cell_reference rt cell_ref (get_merged_cell_mapping (merged_cells ws))
           = letter @ py_str (min_row r)
       \<and> update_worksheet rt ws [cell_info] =
           (if cell_writable rt (merged_cells ws) (letter @ py_str (min_row r)) v
            then (ws\<lparr>cells := (cells ws)(letter @ py_str (min_row r) \<mapsto> v)\<rparr>, 1)
            else (ws, 0))
       \<and> (\<forall>key. coordinate_to_tuple rt key \<noteq> Some (top_left r) \<longrightarrow>
              cells (fst (update_worksheet rt ws [cell_info])) key = cells ws key)
       \<and> cells (fst (update_worksheet rt ws [cell_info])) cell_ref = cells ws cell_ref
       \<and> fst (update_worksheet rt (fst (update_worksheet rt ws [cell_info])) [cell_info])
           = fst (update_worksheet rt ws [cell_info])
       \<and> fst (update_worksheet rt ws [cell_info, cell_info])
           = fst (update_worksheet rt ws [cell_info])"
proof -
  let ?target = "letter @ py_str (min_row r)"
  have res: "resolve_merged_cell_reference rt cell_ref (get_merged_cell_mapping (merged_cells ws))
      = ?target"
    by (rule resolve_subordinate [OF assms(1,2,3,4,6)])
  have upd: "update_worksheet rt ws [cell_info] =
      (if cell_writable rt (merged_cells ws) ?target v
       then (ws\<lparr>cells := (cells ws)(?target \<mapsto> v)\<rparr>, 1) else (ws, 0))"
    using update_cell_valid [OF assms(8,9,10,11,12), of "get_merged_cell_mapping (merged_cells ws)" ws 0]
    by (simp add: update_worksheet_single res)
  have others: "cells (fst (update_worksheet rt ws [cell_info])) key = cells ws key"
    if "coordinate_to_tuple rt key \<noteq> Some (top_left r)" for key
  proof -
    have "key \<noteq> ?target" using that assms(7) by auto
    then show ?thesis by (simp add: upd)
  qed
  have own: "cells (fst (update_worksheet rt ws [cell_info])) cell_ref = cells ws cell_ref"
    using others [of cell_ref] assms(3,5) by simp
  show ?thesis
    using res upd others own update_worksheet_again [of rt ws cell_info]
      update_worksheet_repeated [of rt ws cell_info]
    by blast
qed

lemma plain_B1: "plain_coordinate_to_tuple ''B1'' = Some (1, 2)"
  by code_simp

lemma plain_letter_1: "plain_get_column_letter 1 = Some ''A''"
  by code_simp

lemma plain_A1: "plain_coordinate_to_tuple (''A'' @ py_str 1) = Some (1, 1)"
  by code_simp

lemma plain_A1_str: "''A'' @ py_str 1 = ''A1''"
  by code_simp

lemma coerce_1234: "coerce_value plain_runtime (PyStr ''1,234'') = Inr (PyInt 1234)"
  by (simp add: coerce_value_str py_isdigit_def isdigit_char_def is_decimal_def py_int_def
      decimal_value_def digit_value_def)

lemma writable_A1: "cell_writable plain_runtime (merged_cells summary_sheet) ''A1'' v"
  using plain_A1 unfolding plain_A1_str
  by (simp add: plain_runtime_def plain_writable_def summary_sheet_def in_range_def top_left_def)

theorem merged_patch_redirected_witness:
  "non_overlapping (merged_cells summary_sheet)
   \<and> \<lparr>min_row = 1, min_col = 1, max_row = 1, max_col = 2\<rparr> \<in> set (merged_cells summary_sheet)
   \<and> coordinate_to_tuple plain_runtime ''B1'' = Some (1, 2)
   \<and> in_range \<lparr>min_row = 1, min_col = 1, max_row = 1, max_col = 2\<rparr> (1, 2)
   \<and> (1, 2) \<noteq> top_left \<lparr>min_row = 1, min_col = 1, max_row = 1, max_col = 2\<rparr>
   \<and> get_column_letter plain_runtime 1 = Some ''A''
   \<and> coordinate_to_tuple plain_runtime ''A1'' = Some (1, 1)
   \<and> coerce_value plain_runtime (PyStr ''1,234'') = Inr (PyInt 1234)
   \<and> update_worksheet plain_runtime summary_sheet
        [\<lparr>cell_reference = Some ''B1'', patch_value = PyStr ''1,234'', patch_context = None\<rparr>]
      = (summary_sheet\<lparr>cells := (cells summary_sheet)(''A1'' \<mapsto> PyInt 1234)\<rparr>, 1)"
proof -
  let ?r = "\<lparr>min_row = 1, min_col = 1, max_row = 1, max_col = 2\<rparr>"
  let ?ci = "\<lparr>cell_reference = Some ''B1'', patch_value = PyStr ''1,234'', patch_context = None\<rparr>
               :: rat cell_patch"
  have h1: "non_overlapping (merged_cells summary_sheet)"
    by (simp add: summary_sheet_def non_overlapping_def valid_range_def)
  have h2: "?r \<in> set (merged_cells summary_sheet)" by (simp add: summary_sheet_def)
  have h3: "coordinate_to_tuple plain_runtime ''B1'' = Some (1, 2)"
    by (simp add: plain_runtime_def plain_B1)
  have h4: "in_range ?r (1, 2)" by (simp add: in_range_def)
  have h5: "(1, 2) \<noteq> top_left ?r" by (simp add: top_left_def)
  have h6: "get_column_letter plain_runtime (min_col ?r) = Some ''A''"
    by (simp add: plain_runtime_def plain_letter_1)
  have h7: "coordinate_to_tuple plain_runtime (''A'' @ py_str (min_row ?r)) = Some (top_left ?r)"
    using plain_A1 by (simp add: plain_runtime_def top_left_def)
  have h8: "cell_reference ?ci = Some ''B1''" by simp
  have h9: "2 \<le> length ''B1''" by simp
  have h10: "patch_value ?ci \<noteq> PyNone" by simp
  have h11: "patch_value ?ci \<noteq> PyStr []" by simp
  have h12: "coerce_value plain_runtime (patch_value ?ci) = Inr (PyInt 1234)"
    by (simp add: coerce_1234)
  from merged_patch_redirected [OF h1 h2 h3 h4 h5 h6 h7 h8 h9 h10 h11 h12]
  have "update_worksheet plain_runtime summary_sheet [?ci] =
           (if cell_writable plain_runtime (merged_cells summary_sheet) (''A'' @ py_str (min_row ?r)) (PyInt 1234)
            then (summary_sheet\<lparr>cells := (cells summary_sheet)(''A'' @ py_str (min_row ?r) \<mapsto> PyInt 1234)\<rparr>, 1)
            else (summary_sheet, 0))"
    by blast
  then have "update_worksheet plain_runtime summary_sheet [?ci]
      = (summary_sheet\<lparr>cells := (cells summary_sheet)(''A1'' \<mapsto> PyInt 1234)\<rparr>, 1)"
    using plain_A1_str writable_A1 by simp
  then show ?thesis
    using h1 h2 h3 h4 h5 h6 h7 h12 plain_A1_str by (simp add: top_left_def)
qed

subsection \<open>When a workbook is saved\<close>

text \<open>A file the applier can use: one object or an array of objects.\<close>

fun usable :: "'f json_file option \<Rightarrow> bool" where
  "usable (Some (JsonObject cell_info)) = True"
| "usable (Some (JsonArray cell_data)) = True"
| "usable _ = False"

lemma process_sheet_flag:
  "workbook_updated (process_sheet rt output_folder workbook_name sheet_name st)
     = (workbook_updated st \<or> usable (output_folder (json_filename workbook_name sheet_name)))"
  by (simp add: process_sheet_def Let_def split: option.splits json_file.splits prod.splits)

lemma fold_process_sheet_flag:
  "workbook_updated (fold (process_sheet rt output_folder workbook_name) names st)
     = (workbook_updated st
        \<or> list_ex (\<lambda>sheet_name. usable (output_folder (json_filename workbook_name sheet_name))) names)"
  by (induction names arbitrary: st) (auto simp: process_sheet_flag)

lemma workbook_saved_iff:
  "fst (update_workbook_from_json rt output_folder workbook_name workbook) \<noteq> None
     \<longleftrightarrow> list_ex (\<lambda>sheet_name. usable (output_folder (json_filename workbook_name sheet_name)))
           (sheetnames workbook)"
  by (simp add: update_workbook_from_json_def Let_def fold_process_sheet_flag)

lemma clean_Summary: "clean_sheet_name_for_json ''Summary'' = ''Summary''"
  by code_simp

lemma json_filename_Summary: "json_filename ''book'' ''Summary'' = ''book_Summary.json''"
  by (simp add: json_filename_def clean_Summary)

text \<open>
  Claim C3 on the code. A workbook whose only sheet has a matching patch set that is
  the empty array, or a patch set whose only patch has no value, receives no cell
  update; the flag \<^verbatim>\<open>workbook_updated\<close> is set all the same and the workbook is
  saved, with a total of 0 updates.
\<close>

theorem workbook_saved_without_update:
  "update_workbook_from_json rt [''book_Summary.json'' \<mapsto> JsonArray []] ''book''
       \<lparr>sheets = [(''Summary'', ws)]\<rparr>
     = (Some \<lparr>sheets = [(''Summary'', ws)]\<rparr>, 0)
   \<and> update_workbook_from_json rt
       [''book_Summary.json'' \<mapsto>
          JsonArray [\<lparr>cell_reference = Some ''B2'', patch_value = PyNone, patch_context = None\<rparr>]]
       ''book'' \<lparr>sheets = [(''Summary'', ws)]\<rparr>
     = (Some \<lparr>sheets = [(''Summary'', ws)]\<rparr>, 0)"
  by (simp add: update_workbook_from_json_def sheetnames_def process_sheet_def
      json_filename_Summary update_excel_sheet_def update_worksheet_def update_cell_def
      put_sheet_def)

end
